theory Spec2Isabelle
  imports Complex_Main "HOL-Library.List_Lexorder" "HOL-Library.Char_ord" "HOL-Library.Log_Nat"
begin

section \<open>Conventions of the embedding\<close>

text \<open>
  The development embeds the scoring pipeline of ATS.ai (\<^verbatim>\<open>backend/utils/scorer.py\<close> and
  \<^verbatim>\<open>backend/main.py\<close>).

  \<^item> Python \<^verbatim>\<open>str\<close> values are \<open>string\<close> (ASCII texts); \<^verbatim>\<open>str.lower\<close>, the regular
    expression classes and \<^verbatim>\<open>\b\<close> are modelled on ASCII characters.
  \<^item> Python numbers are rationals: an \<^verbatim>\<open>int\<close> is its value, and a \<^verbatim>\<open>float\<close> is written
    as the decimal that it prints as (\<^verbatim>\<open>0.7\<close> is \<open>7/10\<close>) and stands for the nearest
    binary64 number. \<^verbatim>\<open>round(x, 1)\<close> rounds the exact value to one decimal, ties to even.
    The blend of the two scores in \<^verbatim>\<open>score_resume\<close> is computed as the code computes it:
    every operand and every result is rounded to the nearest binary64 number, and an
    integer that is too large to be converted to a float raises \<^verbatim>\<open>OverflowError\<close>. The
    arithmetic of the keyword matcher is exact: the rounding error of its float
    operations is outside the model, and so are the infinities and NaN.
  \<^item> Everything the code obtains from outside (the scikit-learn similarity, the provider
    calls, download and text extraction, \<^verbatim>\<open>str()\<close> of values that are not strings) is a
    parameter of the function that uses it, so every theorem holds for every behaviour
    of the outside world.
  \<^item> An exception is a value \<open>Inl e\<close> of a sum type.
\<close>

section \<open>Strings\<close>

definition is_upper :: "char \<Rightarrow> bool" where
  "is_upper c = (CHR ''A'' \<le> c \<and> c \<le> CHR ''Z'')"

definition is_lower :: "char \<Rightarrow> bool" where
  "is_lower c = (CHR ''a'' \<le> c \<and> c \<le> CHR ''z'')"

definition is_digit :: "char \<Rightarrow> bool" where
  "is_digit c = (CHR ''0'' \<le> c \<and> c \<le> CHR ''9'')"

text \<open>The class \<^verbatim>\<open>\w\<close> of the regular expression engine.\<close>

definition is_word :: "char \<Rightarrow> bool" where
  "is_word c = (is_upper c \<or> is_lower c \<or> is_digit c \<or> c = CHR ''_'')"

text \<open>The class \<^verbatim>\<open>[a-zA-Z0-9+#.]\<close> of \<^verbatim>\<open>_TECH_PATTERN\<close>.\<close>

definition tech_class :: "char \<Rightarrow> bool" where
  "tech_class c = (is_lower c \<or> is_upper c \<or> is_digit c
      \<or> c = CHR ''+'' \<or> c = CHR ''#'' \<or> c = CHR ''.'')"

definition lower_char :: "char \<Rightarrow> char" where
  "lower_char c = (if is_upper c then char_of (of_char c + (32::nat)) else c)"

definition lower :: "string \<Rightarrow> string" where
  "lower s = map lower_char s"

definition upper_char :: "char \<Rightarrow> char" where
  "upper_char c = (if is_lower c then char_of (of_char c - (32::nat)) else c)"

text \<open>\<^verbatim>\<open>str.capitalize\<close>: first character upper case, the rest lower case.\<close>

fun capitalize :: "string \<Rightarrow> string" where
  "capitalize [] = []"
| "capitalize (c # cs) = upper_char c # lower cs"

fun starts_with :: "string \<Rightarrow> string \<Rightarrow> bool" where
  "starts_with s [] = True"
| "starts_with [] (p # ps) = False"
| "starts_with (c # cs) (p # ps) = (c = p \<and> starts_with cs ps)"

text \<open>Python's \<^verbatim>\<open>sub in s\<close> on strings.\<close>

fun contains :: "string \<Rightarrow> string \<Rightarrow> bool" where
  "contains sub [] = (sub = [])"
| "contains sub (c # cs) = (starts_with (c # cs) sub \<or> contains sub cs)"

text \<open>\<^verbatim>\<open>sep.join(xs)\<close> on a list of strings.\<close>

fun join :: "string \<Rightarrow> string list \<Rightarrow> string" where
  "join sep [] = []"
| "join sep [x] = x"
| "join sep (x # y # ys) = x @ sep @ join sep (y # ys)"

section \<open>Numbers\<close>

text \<open>Rounding to the nearest integer, ties to the even neighbour.\<close>

definition round_half_even :: "rat \<Rightarrow> int" where
  "round_half_even y =
     (let f = \<lfloor>y\<rfloor>; d = y - of_int f
      in if d < 1 / 2 then f
         else if 1 / 2 < d then f + 1
         else if even f then f else f + 1)"

text \<open>\<^verbatim>\<open>round(x, 1)\<close>.\<close>

definition round1 :: "rat \<Rightarrow> rat" where
  "round1 x = of_int (round_half_even (x * 10)) / 10"

text \<open>
  A Python \<^verbatim>\<open>float\<close> is an IEEE 754 binary64 number: \<open>m * 2^k\<close> for integers \<open>m\<close> and
  \<open>k\<close> with \<open>|m| < 2^53\<close> and \<open>k \<ge> -1074\<close>. For a positive \<open>x\<close>, \<open>exponent x\<close> is the \<open>e\<close>
  with \<open>2^e \<le> x < 2^(e+1)\<close>; the floats from \<open>2^e\<close> to \<open>2^(e+1)\<close> are \<open>2^(e-52)\<close>
  apart, and those below \<open>2^(-1022)\<close> are \<open>2^(-1074)\<close> apart.
\<close>

definition pow2 :: "int \<Rightarrow> rat" where
  "pow2 k = (if 0 \<le> k then 2 ^ nat k else 1 / 2 ^ nat (- k))"

definition exponent :: "rat \<Rightarrow> int" where
  "exponent x = (if 1 \<le> x then bitlen \<lfloor>x\<rfloor> - 1 else - bitlen (\<lceil>1 / x\<rceil> - 1))"

text \<open>
  The float nearest to \<open>x\<close>, ties to the even significand: the value of a decimal
  literal, of the conversion of an integer to a float, and of an arithmetic operation
  on floats, whose exact result is rounded. (It is used below the largest float only.)
\<close>

definition nearest_float :: "rat \<Rightarrow> rat" where
  "nearest_float x =
     (if x = 0 then 0
      else let e = max (exponent \<bar>x\<bar>) (- 1022); ulp = pow2 (e - 52)
           in of_int (round_half_even (x / ulp)) * ulp)"

text \<open>\<^verbatim>\<open>x * y\<close> and \<^verbatim>\<open>x + y\<close> where the operands are floats, or are converted to floats.\<close>

definition float_mul :: "rat \<Rightarrow> rat \<Rightarrow> rat" where
  "float_mul x y = nearest_float (nearest_float x * nearest_float y)"

definition float_add :: "rat \<Rightarrow> rat \<Rightarrow> rat" where
  "float_add x y = nearest_float (nearest_float x + nearest_float y)"

text \<open>
  An integer of magnitude \<open>2^1024 - 2^970\<close> or more rounds to a value beyond the largest
  float, \<open>2^1024 - 2^971\<close>, and its conversion to a float raises
  \<^verbatim>\<open>OverflowError: int too large to convert to float\<close>.
\<close>

definition FLOAT_LIMIT :: rat where
  "FLOAT_LIMIT = of_int (2 ^ 1024 - 2 ^ 970)"

section \<open>Keyword Matcher\<close>

definition COMMON_SKILLS :: "string list" where
  "COMMON_SKILLS =
    [''python'', ''java'', ''javascript'', ''typescript'', ''c++'', ''c#'', ''ruby'', ''go'',
     ''php'', ''swift'', ''kotlin'', ''r'', ''scala'', ''rust'', ''react'', ''angular'', ''vue'',
     ''django'', ''flask'', ''fastapi'', ''node'', ''express'', ''sql'', ''mysql'', ''postgresql'',
     ''mongodb'', ''redis'', ''elasticsearch'', ''aws'', ''azure'', ''gcp'', ''docker'',
     ''kubernetes'', ''machine learning'', ''deep learning'', ''nlp'', ''tensorflow'',
     ''pytorch'', ''pandas'', ''numpy'', ''scikit-learn'', ''communication'', ''leadership'',
     ''agile'']"

text \<open>
  \<^verbatim>\<open>_TECH_PATTERN = re.compile(r'\b[A-Z][a-zA-Z0-9+#.]*\b')\<close>.
  \<open>boundary a b\<close> is \<^verbatim>\<open>\b\<close> between the characters \<open>a\<close> and \<open>b\<close>, where \<open>None\<close> is the
  start or the end of the text.
\<close>

definition word_opt :: "char option \<Rightarrow> bool" where
  "word_opt c = (case c of None \<Rightarrow> False | Some x \<Rightarrow> is_word x)"

definition boundary :: "char option \<Rightarrow> char option \<Rightarrow> bool" where
  "boundary a b = (word_opt a \<noteq> word_opt b)"

definition nth_opt :: "'a list \<Rightarrow> nat \<Rightarrow> 'a option" where
  "nth_opt xs i = (if i < length xs then Some (xs ! i) else None)"

text \<open>
  The greedy star with backtracking: after the first character \<open>c\<close>, the greatest \<open>k\<close>, not
  above the given bound, such that the match \<open>c # take k cs\<close> ends at a word boundary;
  \<open>None\<close> when there is no such \<open>k\<close>.
\<close>

fun match_len :: "char \<Rightarrow> string \<Rightarrow> nat \<Rightarrow> nat option" where
  "match_len c cs 0 = (if boundary (Some c) (nth_opt cs 0) then Some 0 else None)"
| "match_len c cs (Suc k) =
     (if boundary (nth_opt cs k) (nth_opt cs (Suc k)) then Some (Suc k)
      else match_len c cs k)"

text \<open>
  \<^verbatim>\<open>_TECH_PATTERN.findall(text)\<close>: the matches from left to right, not overlapping.
  \<open>prev\<close> says whether the character before the current position is a word character.
\<close>

function tech_findall :: "bool \<Rightarrow> string \<Rightarrow> string list" where
  "tech_findall prev [] = []"
| "tech_findall prev (c # cs) =
     (if \<not> prev \<and> is_upper c then
        (case match_len c cs (length (takeWhile tech_class cs)) of
           Some k \<Rightarrow> (c # take k cs) # tech_findall (is_word (last (c # take k cs))) (drop k cs)
         | None \<Rightarrow> tech_findall True cs)
      else tech_findall (is_word c) cs)"
  by pat_completeness auto
termination
  by (relation "measure (\<lambda>(p, t). length t)") auto

definition extract_keywords :: "string \<Rightarrow> string set" where
  "extract_keywords text =
     (let text_lower = lower text;
          found = set (filter (\<lambda>skill. contains skill text_lower) COMMON_SKILLS);
          tech_matches = tech_findall False text
      in found \<union> set (map lower (filter (\<lambda>word. 2 < length word) tech_matches)))"

text \<open>
  \<^verbatim>\<open>_tfidf_similarity\<close>: \<open>tfidf\<close> is the scikit-learn computation, \<open>None\<close> when it raises.
\<close>

definition tfidf_similarity :: "(string \<Rightarrow> string \<Rightarrow> rat option) \<Rightarrow> string \<Rightarrow> string \<Rightarrow> rat" where
  "tfidf_similarity tfidf resume_text jd_text =
     (case tfidf resume_text jd_text of Some s \<Rightarrow> s | None \<Rightarrow> 0)"

record kw_result =
  score :: rat
  matched_keywords :: "string list"
  missing_keywords :: "string list"

definition keyword_score :: "(string \<Rightarrow> string \<Rightarrow> rat option) \<Rightarrow> string \<Rightarrow> string \<Rightarrow> kw_result" where
  "keyword_score tfidf resume_text jd_text =
     (let jd_keywords = extract_keywords jd_text;
          resume_keywords = extract_keywords resume_text;
          matched = jd_keywords \<inter> resume_keywords;
          missing = jd_keywords - resume_keywords;
          match_ratio = (if jd_keywords \<noteq> {}
                         then of_nat (card matched) / of_nat (card jd_keywords) else 0);
          tfidf_sim = tfidf_similarity tfidf resume_text jd_text;
          combined = (match_ratio * (6 / 10)) + (tfidf_sim * (4 / 10))
      in \<lparr> score = round1 (combined * 100),
           matched_keywords = sorted_list_of_set matched,
           missing_keywords = take 10 (sorted_list_of_set missing) \<rparr>)"



section \<open>JSON values and dictionaries\<close>

datatype json =
    JNull
  | JBool bool
  | JNum rat
  | JStr string
  | JArr "json list"
  | JObj "(string \<times> json) list"

text \<open>
  A Python \<^verbatim>\<open>dict\<close> with string keys, in insertion order; the first entry of a key is
  the one that counts.
\<close>

type_synonym dict = "(string \<times> json) list"

definition dict_get :: "dict \<Rightarrow> string \<Rightarrow> json option" where
  "dict_get d k = map_of d k"

text \<open>\<^verbatim>\<open>d.get(k, default)\<close>.\<close>

definition get_default :: "dict \<Rightarrow> string \<Rightarrow> json \<Rightarrow> json" where
  "get_default d k dflt = (case dict_get d k of Some v \<Rightarrow> v | None \<Rightarrow> dflt)"

text \<open>\<^verbatim>\<open>d[k] = v\<close>.\<close>

fun dict_set :: "string \<Rightarrow> json \<Rightarrow> dict \<Rightarrow> dict" where
  "dict_set k v [] = [(k, v)]"
| "dict_set k v ((k', v') # d) =
     (if k' = k then (k, v) # d else (k', v') # dict_set k v d)"

text \<open>\<^verbatim>\<open>d.pop(k, default)\<close>: the value and the dictionary without the key.\<close>

definition dict_pop :: "dict \<Rightarrow> string \<Rightarrow> json \<Rightarrow> json \<times> dict" where
  "dict_pop d k dflt =
     (case dict_get d k of
        Some v \<Rightarrow> (v, filter (\<lambda>e. fst e \<noteq> k) d)
      | None \<Rightarrow> (dflt, d))"

text \<open>A dictionary display \<^verbatim>\<open>{k1: v1, ..., **d, ...}\<close> stores its entries from left to right.\<close>

definition dict_of :: "(string \<times> json) list \<Rightarrow> dict" where
  "dict_of entries = fold (\<lambda>e d. dict_set (fst e) (snd e) d) entries []"

text \<open>Truth value of a Python object.\<close>

fun truthy :: "json \<Rightarrow> bool" where
  "truthy JNull = False"
| "truthy (JBool b) = b"
| "truthy (JNum q) = (q \<noteq> 0)"
| "truthy (JStr s) = (s \<noteq> [])"
| "truthy (JArr xs) = (xs \<noteq> [])"
| "truthy (JObj d) = (d \<noteq> [])"

datatype error =
    Exception string
  | HTTPException nat string
  | TypeError
  | IndexError
  | KeyError
  | OverflowError

text \<open>The operand of an arithmetic operation or comparison with a number.\<close>

fun to_number :: "json \<Rightarrow> error + rat" where
  "to_number (JNum q) = Inr q"
| "to_number (JBool b) = Inr (if b then 1 else 0)"
| "to_number _ = Inl TypeError"

text \<open>
  The left operand of a multiplication by a float, \<^verbatim>\<open>v * 0.7\<close>: a number, which is
  converted to a float. A float is within the float range already, so a number of
  magnitude \<open>FLOAT_LIMIT\<close> or more is an integer, and the conversion raises.
\<close>

definition to_float :: "json \<Rightarrow> error + rat" where
  "to_float v =
     (case to_number v of
        Inl e \<Rightarrow> Inl e
      | Inr q \<Rightarrow> if FLOAT_LIMIT \<le> \<bar>q\<bar> then Inl OverflowError else Inr q)"

fun str_items :: "json list \<Rightarrow> error + string list" where
  "str_items [] = Inr []"
| "str_items (JStr s # xs) =
     (case str_items xs of Inl e \<Rightarrow> Inl e | Inr ss \<Rightarrow> Inr (s # ss))"
| "str_items (_ # xs) = Inl TypeError"

text \<open>
  \<^verbatim>\<open>", ".join(v)\<close> on a JSON value: a list must hold strings only, a string is iterated by
  character and a dictionary by key; anything else is not iterable.
\<close>

fun join_json :: "json \<Rightarrow> error + string" where
  "join_json (JArr xs) =
     (case str_items xs of Inl e \<Rightarrow> Inl e | Inr ss \<Rightarrow> Inr (join '', '' ss))"
| "join_json (JStr s) = Inr (join '', '' (map (\<lambda>c. [c]) s))"
| "join_json (JObj d) = Inr (join '', '' (remdups (map fst d)))"
| "join_json _ = Inl TypeError"

text \<open>
  What the code takes from the Python runtime and its libraries: the scikit-learn
  similarity (\<open>None\<close> when it raises), \<^verbatim>\<open>str(v)\<close> of a value that is not a string, and
  \<^verbatim>\<open>str(e)\<close> of an exception raised by the interpreter itself.
\<close>

record runtime =
  tfidf_cosine :: "string \<Rightarrow> string \<Rightarrow> rat option"
  repr :: "json \<Rightarrow> string"
  builtin_text :: "error \<Rightarrow> string"

definition py_str :: "runtime \<Rightarrow> json \<Rightarrow> string" where
  "py_str rt v = (case v of JStr s \<Rightarrow> s | _ \<Rightarrow> repr rt v)"

definition str_exc :: "runtime \<Rightarrow> error \<Rightarrow> string" where
  "str_exc rt e = (case e of Exception m \<Rightarrow> m | _ \<Rightarrow> builtin_text rt e)"

section \<open>LLM Judge\<close>

definition MAX_RETRIES :: nat where
  "MAX_RETRIES = 2"

datatype provider = OpenAI | Gemini

text \<open>
  One attempt at a provider is everything inside the \<^verbatim>\<open>try\<close> block up to
  \<^verbatim>\<open>json.loads\<close> and the tagging of the result: it either raises an exception whose
  \<^verbatim>\<open>str()\<close> is the given message (the API call failed, the content is missing, is not
  JSON, or is JSON that is not an object), or \<^verbatim>\<open>json.loads\<close> returns a dictionary.
  A provider is the outcome of each attempt of one call of \<^verbatim>\<open>llm_score\<close>, by attempt
  index.
\<close>

datatype call_outcome = Raises string | Replies dict

record providers =
  openai :: "nat \<Rightarrow> call_outcome"
  gemini :: "nat \<Rightarrow> call_outcome"

text \<open>What \<^verbatim>\<open>llm_score\<close> does to the outside world, in order.\<close>

datatype effect = Call provider nat | Sleep rat

definition openai_retryable :: "string \<Rightarrow> bool" where
  "openai_retryable e =
     (let err_str = lower e
      in contains ''rate'' err_str \<or> contains ''429'' err_str
         \<or> contains ''timeout'' err_str \<or> contains ''overloaded'' err_str)"

definition gemini_retryable :: "string \<Rightarrow> bool" where
  "gemini_retryable e =
     (let err_str = lower e
      in contains ''rate'' err_str \<or> contains ''429'' err_str
         \<or> contains ''quota'' err_str \<or> contains ''resource'' err_str)"

text \<open>
  The retry loop \<^verbatim>\<open>for attempt in range(_MAX_RETRIES + 1)\<close>, which the source writes once
  for each provider: \<open>is_retryable\<close>, the tag and the provider are what differs.
\<close>

function attempts ::
  "(string \<Rightarrow> bool) \<Rightarrow> string \<Rightarrow> provider \<Rightarrow> (nat \<Rightarrow> call_outcome) \<Rightarrow> nat
     \<Rightarrow> dict option \<times> effect list" where
  "attempts is_retryable tag p call attempt =
     (if attempt < MAX_RETRIES + 1 then
        (case call attempt of
           Replies result \<Rightarrow>
             (Some (dict_set ''llm_provider'' (JStr tag) result), [Call p attempt])
         | Raises e \<Rightarrow>
             if is_retryable e \<and> attempt < MAX_RETRIES then
               (let wait = (of_nat attempt + 1) * (15 / 10);
                    rest = attempts is_retryable tag p call (attempt + 1)
                in (fst rest, Call p attempt # Sleep wait # snd rest))
             else (None, [Call p attempt]))
      else (None, []))"
  by pat_completeness auto
termination
  by (relation "measure (\<lambda>(r, t, p, c, a). MAX_RETRIES + 1 - a)") auto

declare attempts.simps [simp del]

definition llm_score :: "providers \<Rightarrow> string \<Rightarrow> string \<Rightarrow> dict option \<times> effect list" where
  "llm_score pv openai_key gemini_key =
     (let first = (if openai_key \<noteq> [] then attempts openai_retryable ''GPT'' OpenAI (openai pv) 0
                   else (None, []))
      in case fst first of
           Some result \<Rightarrow> (Some result, snd first)
         | None \<Rightarrow>
             (let second = (if gemini_key \<noteq> []
                            then attempts gemini_retryable ''Gemini'' Gemini (gemini pv) 0
                            else (None, []))
              in (fst second, snd first @ snd second)))"

section \<open>Resume Scorer\<close>

definition LLM_WEIGHT :: rat where
  "LLM_WEIGHT = 7 / 10"

definition KEYWORD_WEIGHT :: rat where
  "KEYWORD_WEIGHT = 3 / 10"

text \<open>The branch \<^verbatim>\<open>if llm_result:\<close> of \<^verbatim>\<open>score_resume\<close>.\<close>

definition llm_record :: "runtime \<Rightarrow> kw_result \<Rightarrow> dict \<Rightarrow> error + dict" where
  "llm_record rt kw_result llm_result =
     (case to_float (get_default llm_result ''overall_score'' (JNum 0)) of
        Inl e \<Rightarrow> Inl e
      | Inr overall \<Rightarrow>
         (let final = round1 (float_add (float_mul overall LLM_WEIGHT)
                                        (float_mul (score kw_result) KEYWORD_WEIGHT));
              rec0 = capitalize (py_str rt (get_default llm_result ''recommendation'' (JStr ''Maybe'')));
              rec = (if rec0 \<notin> set [''Yes'', ''No'', ''Maybe''] then ''Maybe'' else rec0)
          in case join_json (get_default llm_result ''missing_requirements'' (JArr [])) of
               Inl e \<Rightarrow> Inl e
             | Inr missing \<Rightarrow>
                 Inr (dict_of
                   [(''ATS Score'', JNum final),
                    (''Phone Number'', get_default llm_result ''phone_number'' (JStr ''Not Found'')),
                    (''Email'', get_default llm_result ''email'' (JStr ''Not Found'')),
                    (''Photo Link'', get_default llm_result ''photo_link'' (JStr ''Not Found'')),
                    (''Resume Summary'', get_default llm_result ''summary'' (JStr '''')),
                    (''Missing Requirements'', JStr missing),
                    (''Job Description Summary'',
                       get_default llm_result ''job_description_summary'' (JStr '''')),
                    (''Target Job Role'', get_default llm_result ''target_job_role'' (JStr '''')),
                    (''Best Fit Role'', get_default llm_result ''best_fit_role'' (JStr '''')),
                    (''Recommendation'', JStr rec),
                    (''Status'', get_default llm_result ''llm_provider'' (JStr ''GPT'')),
                    (''Candidate Name Extracted'',
                       get_default llm_result ''candidate_name'' (JStr ''''))])))"

text \<open>The \<^verbatim>\<open>else\<close> branch of \<^verbatim>\<open>score_resume\<close>.\<close>

definition keyword_record :: "kw_result \<Rightarrow> dict" where
  "keyword_record kw_result =
     dict_of
       [(''ATS Score'', JNum (score kw_result)),
        (''Phone Number'', JStr ''Not Found''),
        (''Email'', JStr ''Not Found''),
        (''Photo Link'', JStr ''Not Found''),
        (''Resume Summary'', JStr ''LLMs failed or keys missing. Scored via keywords only.''),
        (''Missing Requirements'', JStr (join '', '' (missing_keywords kw_result))),
        (''Job Description Summary'', JStr ''Not Found''),
        (''Target Job Role'', JStr ''Not Found''),
        (''Best Fit Role'', JStr ''Not Found''),
        (''Recommendation'', JStr ''Maybe''),
        (''Status'', JStr ''Keyword'')]"

text \<open>
  \<^verbatim>\<open>score_resume\<close> joins the two futures before it goes on, so the result is that of
  calling \<^verbatim>\<open>keyword_score\<close> and \<^verbatim>\<open>llm_score\<close> one after the other.
\<close>

definition score_resume ::
  "runtime \<Rightarrow> providers \<Rightarrow> string \<Rightarrow> string \<Rightarrow> string \<Rightarrow> string \<Rightarrow> error + dict" where
  "score_resume rt pv resume_text jd_text openai_key gemini_key =
     (let kw_result = keyword_score (tfidf_cosine rt) resume_text jd_text;
          llm_result = fst (llm_score pv openai_key gemini_key)
      in case llm_result of
           Some r \<Rightarrow> if r \<noteq> [] then llm_record rt kw_result r else Inr (keyword_record kw_result)
         | None \<Rightarrow> Inr (keyword_record kw_result))"

section \<open>Multi-JD Resolver\<close>

text \<open>
  \<^verbatim>\<open>ats = score_data.get("ATS Score", 0) or 0\<close>, as the number that
  \<^verbatim>\<open>ats > best_score\<close> compares.
\<close>

definition ats_of :: "dict \<Rightarrow> error + rat" where
  "ats_of score_data =
     (let v = get_default score_data ''ATS Score'' (JNum 0)
      in to_number (if truthy v then v else JNum 0))"

text \<open>
  The loop \<^verbatim>\<open>for jd in jd_texts\<close>. \<open>ps i\<close> is the behaviour of the providers during the
  \<open>i\<close>-th call of \<^verbatim>\<open>score_resume\<close> made for this resume.
\<close>

fun jd_loop ::
  "runtime \<Rightarrow> (nat \<Rightarrow> providers) \<Rightarrow> string \<Rightarrow> string \<Rightarrow> string \<Rightarrow> nat \<Rightarrow> string list
     \<Rightarrow> rat \<Rightarrow> dict option \<Rightarrow> error + rat \<times> dict option" where
  "jd_loop rt ps resume_text oai_key gem_key i [] best_score best_data =
     Inr (best_score, best_data)"
| "jd_loop rt ps resume_text oai_key gem_key i (jd # jds) best_score best_data =
     (case score_resume rt (ps i) resume_text jd oai_key gem_key of
        Inl e \<Rightarrow> Inl e
      | Inr score_data \<Rightarrow>
          (case ats_of score_data of
             Inl e \<Rightarrow> Inl e
           | Inr ats \<Rightarrow>
               if best_score < ats
               then jd_loop rt ps resume_text oai_key gem_key (i + 1) jds ats (Some score_data)
               else jd_loop rt ps resume_text oai_key gem_key (i + 1) jds best_score best_data))"

definition score_against_all_jds ::
  "runtime \<Rightarrow> (nat \<Rightarrow> providers) \<Rightarrow> string \<Rightarrow> string list \<Rightarrow> string \<Rightarrow> string
     \<Rightarrow> error + dict" where
  "score_against_all_jds rt ps resume_text jd_texts oai_key gem_key =
     (if length jd_texts = 1 then
        (case score_resume rt (ps 0) resume_text (jd_texts ! 0) oai_key gem_key of
           Inl e \<Rightarrow> Inl e
         | Inr score_data \<Rightarrow>
             Inr (dict_set ''Matched JD''
                    (get_default score_data ''Target Job Role'' (JStr ''Single JD'')) score_data))
      else
        (case jd_loop rt ps resume_text oai_key gem_key 0 jd_texts (- 1) None of
           Inl e \<Rightarrow> Inl e
         | Inr (best_score, best_data) \<Rightarrow>
             (case (case best_data of
                      Some d \<Rightarrow> Inr d
                    | None \<Rightarrow>
                        (case jd_texts of
                           [] \<Rightarrow> Inl IndexError
                         | jd # _ \<Rightarrow>
                             score_resume rt (ps (length jd_texts)) resume_text jd oai_key gem_key))
              of Inl e \<Rightarrow> Inl e
               | Inr d \<Rightarrow>
                   Inr (dict_set ''Matched JD''
                          (get_default d ''Target Job Role'' (JStr ''N/A'')) d))))"

section \<open>Batch Orchestrator\<close>

text \<open>
  What one worker meets outside the program: \<^verbatim>\<open>download_resume\<close> and \<^verbatim>\<open>extract_text\<close>
  (network and file access, taken by their results) and the providers during each of its
  calls of \<^verbatim>\<open>score_resume\<close>.
\<close>

record worker_env =
  download_resume :: "string \<Rightarrow> error + string option"
  extract_text :: "string \<Rightarrow> error + string"
  provider_calls :: "nat \<Rightarrow> providers"

text \<open>The \<^verbatim>\<open>try\<close> block of \<^verbatim>\<open>_process_one_candidate\<close>.\<close>

definition process_body ::
  "runtime \<Rightarrow> worker_env \<Rightarrow> string \<Rightarrow> string \<Rightarrow> string list \<Rightarrow> string \<Rightarrow> string
     \<Rightarrow> error + dict" where
  "process_body rt env name url jd_texts oai_key gem_key =
     (case download_resume env url of
        Inl e \<Rightarrow> Inl e
      | Inr file_path \<Rightarrow>
          (case (case file_path of None \<Rightarrow> [] | Some fp \<Rightarrow> fp) of
             [] \<Rightarrow> Inl (Exception ''Failed to download resume file.'')
           | c # cs \<Rightarrow>
               (case extract_text env (c # cs) of
                  Inl e \<Rightarrow> Inl e
                | Inr resume_text \<Rightarrow>
                    if resume_text = []
                    then Inl (Exception
                           ''No text could be extracted (possibly a scanned image).'')
                    else
                      (case score_against_all_jds rt (provider_calls env) resume_text jd_texts
                              oai_key gem_key of
                         Inl e \<Rightarrow> Inl e
                       | Inr score_data \<Rightarrow>
                           Inr (dict_of
                             ([(''Candidate Name'', JStr name), (''Resume Link'', JStr url)]
                              @ score_data @ [(''_ok'', JBool True)]))))))"

text \<open>The record built by the \<^verbatim>\<open>except Exception as e\<close> handler.\<close>

definition failed_record :: "runtime \<Rightarrow> string \<Rightarrow> string \<Rightarrow> error \<Rightarrow> dict" where
  "failed_record rt name url e =
     dict_of
       [(''Candidate Name'', JStr name),
        (''Resume Link'', JStr url),
        (''ATS Score'', JNum 0),
        (''Status'', JStr ''Failed''),
        (''Phone Number'', JStr ''Error''),
        (''Email'', JStr ''Error''),
        (''Photo Link'', JStr ''Error''),
        (''Resume Summary'', JStr (''Failed: '' @ str_exc rt e)),
        (''Missing Requirements'', JStr ''Error''),
        (''Job Description Summary'', JStr ''Error''),
        (''Target Job Role'', JStr ''Error''),
        (''Best Fit Role'', JStr ''Error''),
        (''Matched JD'', JStr ''Error''),
        (''Recommendation'', JStr ''No''),
        (''_ok'', JBool False)]"

definition process_one_candidate ::
  "runtime \<Rightarrow> worker_env \<Rightarrow> string \<Rightarrow> string \<Rightarrow> string list \<Rightarrow> string \<Rightarrow> string \<Rightarrow> dict" where
  "process_one_candidate rt env name url jd_texts oai_key gem_key =
     (case process_body rt env name url jd_texts oai_key gem_key of
        Inr result \<Rightarrow> result
      | Inl e \<Rightarrow> failed_record rt name url e)"

definition BATCH_SIZE :: nat where
  "BATCH_SIZE = 15"

text \<open>A candidate is the tuple \<^verbatim>\<open>(name, url, photo)\<close>.\<close>

type_synonym candidate = "string \<times> string \<times> string"

text \<open>The events of the stream: \<^verbatim>\<open>progress\<close>, \<^verbatim>\<open>result\<close> and \<^verbatim>\<open>done\<close>, with their fields in
  the order of the source.\<close>

datatype sse_event =
    Progress nat nat string
  | Result nat nat json json string dict
  | Done nat "dict list"

record stream_state =
  results :: "dict list"
  completed :: nat
  events :: "sse_event list"

text \<open>The loop \<^verbatim>\<open>for name, _, _ in batch\<close>.\<close>

fun emit_progress :: "nat \<Rightarrow> candidate list \<Rightarrow> stream_state \<Rightarrow> stream_state" where
  "emit_progress tot [] st = st"
| "emit_progress tot ((name, url, photo) # batch) st =
     emit_progress tot batch
       (st\<lparr>completed := completed st + 1,
           events := events st @ [Progress (completed st + 1) tot name]\<rparr>)"

text \<open>
  \<^verbatim>\<open>await asyncio.gather(*futures)\<close>. The workers of a batch run in threads and finish in
  any order: \<open>finish i\<close> is the time at which worker \<open>i\<close> of the batch completes. Each
  completion stores the worker's result in the slot of its own position, and the call
  returns the slots, in the order of the awaitables, once all are filled.
\<close>

definition completion_order :: "(nat \<Rightarrow> nat) \<Rightarrow> nat \<Rightarrow> nat list" where
  "completion_order finish n = sort_key finish [0..<n]"

definition gather :: "(nat \<Rightarrow> nat) \<Rightarrow> 'a list \<Rightarrow> 'a list" where
  "gather finish futures =
     (let n = length futures;
          slots = fold (\<lambda>i s. s[i := nth_opt futures i]) (completion_order finish n)
                    (replicate n None)
      in List.map_filter (\<lambda>s. s) slots)"

text \<open>
  What the loop over the batch results does to one result before it is appended: the
  \<^verbatim>\<open>_ok\<close> flag is popped, and the photo of the sheet, when there is one, replaces the
  photo link. The flag and the record are returned.
\<close>

definition finalize_result :: "string \<Rightarrow> dict \<Rightarrow> json \<times> dict" where
  "finalize_result photo_from_sheet result =
     (let popped = dict_pop result ''_ok'' (JBool False);
          ok = fst popped;
          result1 = snd popped
      in (ok,
          if photo_from_sheet \<noteq> [] \<and> photo_from_sheet \<notin> set [''nan'', ''None'', '''']
          then dict_set ''Photo Link'' (JStr photo_from_sheet) result1
          else result1))"

text \<open>The loop \<^verbatim>\<open>for i, result in enumerate(batch_results)\<close>.\<close>

fun emit_results ::
  "nat \<Rightarrow> candidate list \<Rightarrow> nat \<Rightarrow> dict list \<Rightarrow> stream_state \<Rightarrow> error + stream_state" where
  "emit_results tot batch i [] st = Inr st"
| "emit_results tot batch i (result # rest) st =
     (case nth_opt batch i of
        None \<Rightarrow> Inl IndexError
      | Some (name, url, photo_from_sheet) \<Rightarrow>
          (let fin = finalize_result photo_from_sheet result;
               ok = fst fin;
               result2 = snd fin;
               results' = results st @ [result2]
           in case dict_get result2 ''Candidate Name'' of
                None \<Rightarrow> Inl KeyError
              | Some cand \<Rightarrow>
                  emit_results tot batch (i + 1) rest
                    (st\<lparr>results := results',
                        events := events st @
                          [Result (length results') tot cand
                             (get_default result2 ''ATS Score'' (JNum 0))
                             (if truthy ok then ''complete'' else ''failed'')
                             result2]\<rparr>)))"

text \<open>
  One request to \<^verbatim>\<open>/api/analyze\<close> after its input is read: the candidates, the resolved
  job descriptions and the keys, with the environment of worker \<open>i\<close> (the position of its
  candidate in the list) and its completion time.
\<close>

record request =
  rt :: runtime
  envs :: "nat \<Rightarrow> worker_env"
  finish :: "nat \<Rightarrow> nat"
  candidates :: "candidate list"
  total :: nat
  jd_texts :: "string list"
  final_openai_key :: string
  final_gemini_key :: string

text \<open>The body of \<^verbatim>\<open>for batch_start in range(0, total, BATCH_SIZE)\<close>.\<close>

definition process_batch :: "request \<Rightarrow> nat \<Rightarrow> stream_state \<Rightarrow> error + stream_state" where
  "process_batch rq batch_start st =
     (let batch = take BATCH_SIZE (drop batch_start (candidates rq));
          st1 = emit_progress (total rq) batch st;
          futures = map (\<lambda>(i, (name, url, photo)).
                       process_one_candidate (rt rq) (envs rq (batch_start + i)) name url
                         (jd_texts rq) (final_openai_key rq) (final_gemini_key rq))
                     (enumerate 0 batch);
          batch_results = gather (\<lambda>i. finish rq (batch_start + i)) futures
      in emit_results (total rq) batch 0 batch_results st1)"

function batch_loop :: "request \<Rightarrow> nat \<Rightarrow> stream_state \<Rightarrow> error + stream_state" where
  "batch_loop rq batch_start st =
     (if batch_start < total rq then
        (case process_batch rq batch_start st of
           Inl e \<Rightarrow> Inl e
         | Inr st' \<Rightarrow> batch_loop rq (batch_start + BATCH_SIZE) st')
      else Inr st)"
  by pat_completeness auto
termination
  by (relation "measure (\<lambda>(rq, b, st). total rq - b)") (auto simp: BATCH_SIZE_def)

declare batch_loop.simps [simp del]

text \<open>The generator \<^verbatim>\<open>event_stream\<close>: the events it yields, or the exception that ends it.\<close>

definition event_stream :: "request \<Rightarrow> error + sse_event list" where
  "event_stream rq =
     (case batch_loop rq 0 \<lparr>results = [], completed = 0, events = []\<rparr> of
        Inl e \<Rightarrow> Inl e
      | Inr st \<Rightarrow> Inr (events st @ [Done (total rq) (results st)]))"

text \<open>
  A row of the candidate sheet after \<^verbatim>\<open>dropna\<close>: its index label, \<^verbatim>\<open>str()\<close> of its name
  cell (\<open>None\<close> when the sheet has no name column), \<^verbatim>\<open>str()\<close> of its URL cell, and
  \<^verbatim>\<open>str()\<close> of its photo cell (\<open>None\<close> when the sheet has no photo column or the cell is
  empty).
\<close>

record sheet_row =
  idx :: int
  name_cell :: "string option"
  url_cell :: string
  photo_cell :: "string option"

definition is_space :: "char \<Rightarrow> bool" where
  "is_space c = (c \<in> set [CHR '' '', CHR 0x09, CHR 0x0A, CHR 0x0B, CHR 0x0C, CHR 0x0D,
                          CHR 0x1C, CHR 0x1D, CHR 0x1E, CHR 0x1F])"

text \<open>\<^verbatim>\<open>str.strip()\<close>.\<close>

definition strip :: "string \<Rightarrow> string" where
  "strip s = rev (dropWhile is_space (rev (dropWhile is_space s)))"

fun digits :: "nat \<Rightarrow> string" where
  "digits n = (if n < 10 then [char_of (48 + n)] else digits (n div 10) @ [char_of (48 + n mod 10)])"

definition str_int :: "int \<Rightarrow> string" where
  "str_int i = (if i < 0 then CHR ''-'' # digits (nat (- i)) else digits (nat i))"

definition build_candidates :: "sheet_row list \<Rightarrow> candidate list" where
  "build_candidates rows =
     map (\<lambda>row.
        (case name_cell row of Some s \<Rightarrow> s | None \<Rightarrow> ''Candidate '' @ str_int (idx row + 1),
         url_cell row,
         case photo_cell row of Some p \<Rightarrow> strip p | None \<Rightarrow> [])) rows"

text \<open>
  \<^verbatim>\<open>analyze_candidates\<close> from the resolved job descriptions and the rows of the sheet on.
\<close>

definition analyze_candidates ::
  "runtime \<Rightarrow> (nat \<Rightarrow> worker_env) \<Rightarrow> (nat \<Rightarrow> nat) \<Rightarrow> string list \<Rightarrow> sheet_row list
     \<Rightarrow> string \<Rightarrow> string \<Rightarrow> error + sse_event list" where
  "analyze_candidates r ws fin jds rows okey gkey =
     (if jds = [] then
        Inl (HTTPException 400 ''Job description is required. Paste text or upload file(s).'')
      else
        event_stream
          \<lparr>rt = r, envs = ws, finish = fin, candidates = build_candidates rows,
           total = length rows, jd_texts = jds,
           final_openai_key = okey, final_gemini_key = gkey\<rparr>)"

section \<open>Notions used to state the properties\<close>

text \<open>The calls made to a provider, among the effects of \<^verbatim>\<open>llm_score\<close>.\<close>

fun is_call :: "provider \<Rightarrow> effect \<Rightarrow> bool" where
  "is_call p (Call q a) = (p = q)"
| "is_call p (Sleep w) = False"

definition calls_to :: "provider \<Rightarrow> effect list \<Rightarrow> nat" where
  "calls_to p tr = length (filter (is_call p) tr)"

text \<open>The tag that \<^verbatim>\<open>llm_score\<close> gives to the result of each provider.\<close>

fun provider_name :: "provider \<Rightarrow> string" where
  "provider_name OpenAI = ''GPT''"
| "provider_name Gemini = ''Gemini''"

text \<open>
  The classification of errors as the specification words it, one criterion for every
  provider: the message indicates rate-limiting, timeout, quota or overload.
\<close>

definition spec_retryable :: "string \<Rightarrow> bool" where
  "spec_retryable e =
     (let m = lower e
      in contains ''rate'' m \<or> contains ''429'' m \<or> contains ''timeout'' m
         \<or> contains ''quota'' m \<or> contains ''overloaded'' m)"

text \<open>
  The record that the worker of the \<open>i\<close>-th candidate of a request returns, that record
  as the stream emits it, and the \<^verbatim>\<open>progress\<close> and \<^verbatim>\<open>result\<close> events of that candidate.
\<close>

definition worker_result :: "request \<Rightarrow> nat \<Rightarrow> dict" where
  "worker_result rq i =
     (case candidates rq ! i of
        (name, url, photo) \<Rightarrow>
          process_one_candidate (rt rq) (envs rq i) name url
            (jd_texts rq) (final_openai_key rq) (final_gemini_key rq))"

definition final_result :: "request \<Rightarrow> nat \<Rightarrow> dict" where
  "final_result rq i =
     snd (finalize_result (snd (snd (candidates rq ! i))) (worker_result rq i))"

definition progress_event :: "request \<Rightarrow> nat \<Rightarrow> sse_event" where
  "progress_event rq i = Progress (i + 1) (total rq) (fst (candidates rq ! i))"

definition result_event :: "request \<Rightarrow> nat \<Rightarrow> sse_event" where
  "result_event rq i =
     Result (i + 1) (total rq) (JStr (fst (candidates rq ! i)))
       (get_default (final_result rq i) ''ATS Score'' (JNum 0))
       (if truthy (fst (finalize_result (snd (snd (candidates rq ! i))) (worker_result rq i)))
        then ''complete'' else ''failed'')
       (final_result rq i)"

fun is_result :: "sse_event \<Rightarrow> bool" where
  "is_result (Result c t n s st d) = True"
| "is_result _ = False"

fun is_progress :: "sse_event \<Rightarrow> bool" where
  "is_progress (Progress c t n) = True"
| "is_progress _ = False"

text \<open>The candidates named by the \<^verbatim>\<open>result\<close> events of a stream, in the order of the events,
  and the candidate names of the records of its \<^verbatim>\<open>done\<close> events.\<close>

fun result_candidates :: "sse_event list \<Rightarrow> json list" where
  "result_candidates [] = []"
| "result_candidates (Result c t n s st d # evs) = n # result_candidates evs"
| "result_candidates (ev # evs) = result_candidates evs"

fun done_candidates :: "sse_event list \<Rightarrow> json option list" where
  "done_candidates [] = []"
| "done_candidates (Done t rs # evs) =
     map (\<lambda>d. dict_get d ''Candidate Name'') rs @ done_candidates evs"
| "done_candidates (ev # evs) = done_candidates evs"

text \<open>
  The order of the results as the specification words it, for a request of a single
  batch: the candidates in the order in which their workers complete.
\<close>

definition spec_completion_candidates :: "request \<Rightarrow> json list" where
  "spec_completion_candidates rq =
     map (\<lambda>i. JStr (fst (candidates rq ! i)))
       (completion_order (finish rq) (length (candidates rq)))"

text \<open>What the \<^verbatim>\<open>try\<close> block of the worker of the \<open>i\<close>-th candidate ends with.\<close>

definition worker_outcome :: "request \<Rightarrow> nat \<Rightarrow> error + dict" where
  "worker_outcome rq i =
     (case candidates rq ! i of
        (name, url, photo) \<Rightarrow>
          process_body (rt rq) (envs rq i) name url
            (jd_texts rq) (final_openai_key rq) (final_gemini_key rq))"

section \<open>Properties of the Keyword Matcher\<close>

lemma round_half_even_lower: "of_int n \<le> y \<Longrightarrow> n \<le> round_half_even y"
  unfolding round_half_even_def Let_def
  by (auto simp: le_floor_iff) (smt (verit) le_floor_iff)+

lemma round_half_even_upper:
  assumes "y \<le> of_int n"
  shows "round_half_even y \<le> n"
proof -
  have f: "\<lfloor>y\<rfloor> \<le> n" using assms by (simp add: floor_le_iff)
  have up: "\<lfloor>y\<rfloor> + 1 \<le> n" if "0 < y - of_int \<lfloor>y\<rfloor>"
  proof -
    from that have "of_int \<lfloor>y\<rfloor> < y" by simp
    with assms have "(of_int \<lfloor>y\<rfloor> :: rat) < of_int n" by linarith
    then show ?thesis by simp
  qed
  show ?thesis
    unfolding round_half_even_def Let_def using f up by auto
qed

lemma round1_range:
  assumes "0 \<le> x" "x \<le> 100"
  shows "0 \<le> round1 x \<and> round1 x \<le> 100"
proof -
  have "(0::int) \<le> round_half_even (x * 10)"
    using assms by (intro round_half_even_lower) simp
  moreover have "round_half_even (x * 10) \<le> 1000"
    using assms by (intro round_half_even_upper) simp
  ultimately show ?thesis by (simp add: round1_def)
qed

lemma finite_extract_keywords: "finite (extract_keywords t)"
  by (simp add: extract_keywords_def Let_def)

lemma match_ratio_range:
  assumes "finite J"
  shows "0 \<le> (if J \<noteq> {} then of_nat (card (J \<inter> R)) / of_nat (card J) else (0::rat))
       \<and> (if J \<noteq> {} then of_nat (card (J \<inter> R)) / of_nat (card J) else (0::rat)) \<le> 1"
proof (cases "J = {}")
  case True then show ?thesis by simp
next
  case False
  with assms have pos: "0 < card J" by (simp add: card_gt_0_iff)
  have "card (J \<inter> R) \<le> card J" using assms by (simp add: card_mono)
  with pos False show ?thesis by (simp add: divide_le_eq_1)
qed

lemma tfidf_similarity_range:
  assumes "\<forall>s. tf r j = Some s \<longrightarrow> 0 \<le> s \<and> s \<le> 1"
  shows "0 \<le> tfidf_similarity tf r j \<and> tfidf_similarity tf r j \<le> 1"
  using assms by (auto simp: tfidf_similarity_def split: option.splits)

lemma combined_range:
  fixes m s :: rat
  assumes "0 \<le> m" "m \<le> 1" "0 \<le> s" "s \<le> 1"
  shows "0 \<le> (m * (6 / 10) + s * (4 / 10)) * 100 \<and> (m * (6 / 10) + s * (4 / 10)) * 100 \<le> 100"
  using assms by simp

lemma keyword_score_range:
  assumes "\<forall>s. tf resume_text jd_text = Some s \<longrightarrow> 0 \<le> s \<and> s \<le> 1"
  shows "0 \<le> score (keyword_score tf resume_text jd_text)
       \<and> score (keyword_score tf resume_text jd_text) \<le> 100"
proof -
  let ?J = "extract_keywords jd_text" and ?R = "extract_keywords resume_text"
  have finJ: "finite ?J" by (rule finite_extract_keywords)
  define m :: rat where
    "m = (if ?J \<noteq> {} then of_nat (card (?J \<inter> ?R)) / of_nat (card ?J) else 0)"
  define s where "s = tfidf_similarity tf resume_text jd_text"
  have m: "0 \<le> m" "m \<le> 1"
    using match_ratio_range[OF finJ, of ?R] unfolding m_def by blast+
  have s: "0 \<le> s" "s \<le> 1"
    using tfidf_similarity_range[of tf resume_text jd_text] assms unfolding s_def by blast+
  have "score (keyword_score tf resume_text jd_text)
          = round1 ((m * (6 / 10) + s * (4 / 10)) * 100)"
    by (simp add: keyword_score_def Let_def m_def s_def)
  moreover have "0 \<le> (m * (6 / 10) + s * (4 / 10)) * 100"
    and "(m * (6 / 10) + s * (4 / 10)) * 100 \<le> 100"
    using combined_range[OF m s] by blast+
  ultimately show ?thesis
    using round1_range by simp
qed







section \<open>Properties of the LLM Judge\<close>

lemma attempts_retry:
  assumes "call a = Raises e" "R e" "a < MAX_RETRIES"
  shows "attempts R tag p call a =
           (fst (attempts R tag p call (a + 1)),
            Call p a # Sleep ((of_nat a + 1) * (15 / 10)) # snd (attempts R tag p call (a + 1)))"
  using assms by (subst attempts.simps) (simp add: Let_def)

lemma attempts_abandon:
  assumes "call a = Raises e" "a \<le> MAX_RETRIES" "\<not> R e \<or> a = MAX_RETRIES"
  shows "attempts R tag p call a = (None, [Call p a])"
  using assms by (subst attempts.simps) auto

lemma attempts_success:
  assumes "call a = Replies d" "a \<le> MAX_RETRIES"
  shows "attempts R tag p call a = (Some (dict_set ''llm_provider'' (JStr tag) d), [Call p a])"
  using assms by (subst attempts.simps) auto

lemma attempts_exhaust:
  assumes "\<forall>a. \<exists>m. call a = Raises m \<and> R m"
  shows "attempts R tag p call 0
           = (None, [Call p 0, Sleep (3 / 2), Call p 1, Sleep 3, Call p 2])"
proof -
  from assms obtain m0 m1 m2 where
    c: "call 0 = Raises m0" "R m0" "call (Suc 0) = Raises m1" "R m1"
       "call (Suc (Suc 0)) = Raises m2"
    by metis
  have a2: "attempts R tag p call (Suc (Suc 0)) = (None, [Call p 2])"
    using attempts_abandon[of call "Suc (Suc 0)" m2 R tag p] c
    by (simp add: MAX_RETRIES_def numeral_2_eq_2)
  have a1: "attempts R tag p call (Suc 0) = (None, [Call p 1, Sleep 3, Call p 2])"
    using attempts_retry[of call "Suc 0" m1 R tag p] c a2 by (simp add: MAX_RETRIES_def)
  show ?thesis
    using attempts_retry[of call 0 m0 R tag p] c a1 by (simp add: MAX_RETRIES_def)
qed

lemma attempts_all_raise:
  "(\<forall>a. \<exists>m. call a = Raises m) \<Longrightarrow> fst (attempts R tag p call a) = None"
proof (induction R tag p call a rule: attempts.induct)
  case (1 R tag p call a)
  from 1(2) obtain m where m: "call a = Raises m" by blast
  show ?case
  proof (cases "a < MAX_RETRIES + 1 \<and> R m \<and> a < MAX_RETRIES")
    case True
    then have "fst (attempts R tag p call (a + 1)) = None"
      using 1(1)[OF _ m _ refl] 1(2) by simp
    with True m show ?thesis
      by (subst attempts.simps) (simp add: Let_def)
  next
    case False
    with m show ?thesis
      by (subst attempts.simps) (auto simp: Let_def)
  qed
qed

text \<open>Every effect of the attempts at one provider is a call of that provider or a wait.\<close>

lemma attempts_effects:
  "ev \<in> set (snd (attempts R tag p call a)) \<Longrightarrow> (\<exists>k. ev = Call p k) \<or> (\<exists>w. ev = Sleep w)"
proof (induction R tag p call a arbitrary: ev rule: attempts.induct)
  case (1 R tag p call a)
  show ?case
  proof (cases "call a")
    case (Replies d)
    with 1(2) show ?thesis
      by (subst (asm) attempts.simps) (auto split: if_splits)
  next
    case (Raises m)
    show ?thesis
    proof (cases "a < MAX_RETRIES + 1 \<and> R m \<and> a < MAX_RETRIES")
      case True
      have ih: "ev' \<in> set (snd (attempts R tag p call (a + 1))) \<Longrightarrow>
                 (\<exists>k. ev' = Call p k) \<or> (\<exists>w. ev' = Sleep w)" for ev'
        using 1(1)[OF _ Raises _ refl] True by simp
      from 1(2) True Raises
      have "ev = Call p a \<or> (\<exists>w. ev = Sleep w) \<or> ev \<in> set (snd (attempts R tag p call (a + 1)))"
        by (subst (asm) attempts.simps) (auto simp: Let_def)
      with ih show ?thesis by blast
    next
      case False
      with 1(2) Raises show ?thesis
        by (subst (asm) attempts.simps) (auto split: if_splits)
    qed
  qed
qed

lemma calls_to_other:
  assumes "p \<noteq> q"
  shows "calls_to q (snd (attempts R tag p call a)) = 0"
proof -
  have "\<not> is_call q ev" if "ev \<in> set (snd (attempts R tag p call a))" for ev
    using attempts_effects[OF that] assms by auto
  then show ?thesis by (simp add: calls_to_def)
qed

lemma attempts_first_call:
  "take 1 (snd (attempts R tag p call 0)) = [Call p 0]"
  by (subst attempts.simps) (simp add: Let_def split: call_outcome.splits)

text \<open>
  Claim C3, as amended. If the primary provider is configured and every call to it raises
  an error that the primary's own check takes as retryable (the lower-cased message
  contains \<open>rate\<close>, \<open>429\<close>, \<open>timeout\<close> or \<open>overloaded\<close>), it is called exactly
  \<open>MAX_RETRIES + 1 = 3\<close> times, with waits of 1.5 and 3 seconds in between, before
  anything else happens; the fallback provider, when configured, is called next. If the
  fallback is not configured, or every call to it raises as well, the result is absent
  (\<open>None\<close>, a value and not an exception); if its errors are retryable by its own check
  (\<open>rate\<close>, \<open>429\<close>, \<open>quota\<close> or \<open>resource\<close>) it is called 3 times too. With neither
  provider configured the result is absent and no call is made.
\<close>

theorem llm_score_failover:
  "(openai_key \<noteq> [] \<and> (\<forall>a. \<exists>m. openai pv a = Raises m \<and> openai_retryable m) \<longrightarrow>
      MAX_RETRIES + 1 = 3
      \<and> take 5 (snd (llm_score pv openai_key gemini_key))
           = [Call OpenAI 0, Sleep (3 / 2), Call OpenAI 1, Sleep 3, Call OpenAI 2]
      \<and> calls_to OpenAI (snd (llm_score pv openai_key gemini_key)) = MAX_RETRIES + 1
      \<and> (gemini_key \<noteq> [] \<longrightarrow>
            take 1 (drop 5 (snd (llm_score pv openai_key gemini_key))) = [Call Gemini 0])
      \<and> (gemini_key = [] \<longrightarrow>
            llm_score pv openai_key gemini_key
              = (None, [Call OpenAI 0, Sleep (3 / 2), Call OpenAI 1, Sleep 3, Call OpenAI 2]))
      \<and> (gemini_key \<noteq> [] \<and> (\<forall>a. \<exists>m. gemini pv a = Raises m) \<longrightarrow>
            fst (llm_score pv openai_key gemini_key) = None)
      \<and> (gemini_key \<noteq> [] \<and> (\<forall>a. \<exists>m. gemini pv a = Raises m \<and> gemini_retryable m) \<longrightarrow>
            llm_score pv openai_key gemini_key
              = (None, [Call OpenAI 0, Sleep (3 / 2), Call OpenAI 1, Sleep 3, Call OpenAI 2,
                        Call Gemini 0, Sleep (3 / 2), Call Gemini 1, Sleep 3, Call Gemini 2])))
   \<and> llm_score pv [] [] = (None, [])"
proof -
  let ?G = "attempts gemini_retryable ''Gemini'' Gemini (gemini pv) 0"
  let ?five = "[Call OpenAI 0, Sleep (3 / 2), Call OpenAI 1, Sleep 3, Call OpenAI 2]"
  have none: "llm_score pv [] [] = (None, [])"
    by (simp add: llm_score_def)
  have main: ?thesis
    if k: "openai_key \<noteq> []"
    and r: "\<forall>a. \<exists>m. openai pv a = Raises m \<and> openai_retryable m"
  proof -
    have first: "attempts openai_retryable ''GPT'' OpenAI (openai pv) 0 = (None, ?five)"
      using r by (rule attempts_exhaust)
    have eq: "llm_score pv openai_key gemini_key
                = (if gemini_key \<noteq> [] then (fst ?G, ?five @ snd ?G) else (None, ?five))"
      using k first by (simp add: llm_score_def Let_def)
    have c1: "take 5 (snd (llm_score pv openai_key gemini_key)) = ?five"
      by (simp add: eq)
    have c2: "calls_to OpenAI (snd (llm_score pv openai_key gemini_key)) = MAX_RETRIES + 1"
    proof -
      have "calls_to OpenAI (snd ?G) = 0" by (rule calls_to_other) simp
      then show ?thesis by (simp add: eq calls_to_def MAX_RETRIES_def)
    qed
    have c3: "take 1 (drop 5 (snd (llm_score pv openai_key gemini_key))) = [Call Gemini 0]"
      if "gemini_key \<noteq> []"
      using that attempts_first_call[of gemini_retryable "''Gemini''" Gemini "gemini pv"]
      by (simp add: eq)
    have c4: "llm_score pv openai_key gemini_key = (None, ?five)" if "gemini_key = []"
      unfolding eq using that by simp
    have c5: "fst (llm_score pv openai_key gemini_key) = None"
      if "gemini_key \<noteq> []" "\<forall>a. \<exists>m. gemini pv a = Raises m"
      using that attempts_all_raise[of "gemini pv" gemini_retryable "''Gemini''" Gemini 0]
      by (simp add: eq)
    have c6: "llm_score pv openai_key gemini_key
              = (None, [Call OpenAI 0, Sleep (3 / 2), Call OpenAI 1, Sleep 3, Call OpenAI 2,
                        Call Gemini 0, Sleep (3 / 2), Call Gemini 1, Sleep 3, Call Gemini 2])"
      if "gemini_key \<noteq> []" "\<forall>a. \<exists>m. gemini pv a = Raises m \<and> gemini_retryable m"
      using that(1) attempts_exhaust[OF that(2), of "''Gemini''" Gemini]
      by (simp add: eq)
    have c0: "MAX_RETRIES + 1 = 3" by (simp add: MAX_RETRIES_def)
    from c0 c1 c2 c3 c4 c5 c6 none show ?thesis by blast
  qed
  from main none show ?thesis by blast
qed

text \<open>
  The theorem at a primary provider that is always rate limited and a fallback that
  always reports an exhausted quota.
\<close>

theorem llm_score_failover_witness:
  "llm_score \<lparr>openai = (\<lambda>_. Raises ''Rate limit reached''),
              gemini = (\<lambda>_. Raises ''429 RESOURCE_EXHAUSTED'')\<rparr> ''sk'' ''gk''
     = (None, [Call OpenAI 0, Sleep (3 / 2), Call OpenAI 1, Sleep 3, Call OpenAI 2,
               Call Gemini 0, Sleep (3 / 2), Call Gemini 1, Sleep 3, Call Gemini 2])
   \<and> calls_to OpenAI
        (snd (llm_score \<lparr>openai = (\<lambda>_. Raises ''Rate limit reached''),
                         gemini = (\<lambda>_. Raises ''429 RESOURCE_EXHAUSTED'')\<rparr> ''sk'' ''gk'')) = 3"
proof -
  let ?pv = "\<lparr>openai = (\<lambda>_. Raises ''Rate limit reached''),
              gemini = (\<lambda>_. Raises ''429 RESOURCE_EXHAUSTED'')\<rparr>"
  have o: "openai_retryable ''Rate limit reached''" by code_simp
  have g: "gemini_retryable ''429 RESOURCE_EXHAUSTED''" by code_simp
  have ho: "\<forall>a. \<exists>m. openai ?pv a = Raises m \<and> openai_retryable m" using o by simp
  have hg: "\<forall>a. \<exists>m. gemini ?pv a = Raises m \<and> gemini_retryable m" using g by simp
  have k: "''sk'' \<noteq> []" "''gk'' \<noteq> []" by simp_all
  from llm_score_failover[of "''sk''" ?pv "''gk''"] ho hg k
  have eq: "llm_score ?pv ''sk'' ''gk''
     = (None, [Call OpenAI 0, Sleep (3 / 2), Call OpenAI 1, Sleep 3, Call OpenAI 2,
               Call Gemini 0, Sleep (3 / 2), Call Gemini 1, Sleep 3, Call Gemini 2])"
    by blast
  show ?thesis unfolding eq by (simp add: calls_to_def)
qed

text \<open>
  The claim as stated fails: a message that reports an exhausted quota is a retryable
  error in the sense of the specification, but not for the primary provider. When every
  call of the primary provider raises it, the primary provider is called once, not
  \<open>MAX_RETRIES + 1\<close> times, before the fallback is tried.
\<close>

theorem failover_quota_counterexample:
  "spec_retryable ''quota exceeded''
   \<and> llm_score \<lparr>openai = (\<lambda>_. Raises ''quota exceeded''),
                 gemini = (\<lambda>_. Raises ''quota exceeded'')\<rparr> ''sk'' ''gk''
       = (None, [Call OpenAI 0,
                 Call Gemini 0, Sleep (3 / 2), Call Gemini 1, Sleep 3, Call Gemini 2])
   \<and> calls_to OpenAI
        (snd (llm_score \<lparr>openai = (\<lambda>_. Raises ''quota exceeded''),
                         gemini = (\<lambda>_. Raises ''quota exceeded'')\<rparr> ''sk'' ''gk'')) = 1
   \<and> MAX_RETRIES + 1 = 3"
proof -
  let ?pv = "\<lparr>openai = (\<lambda>_. Raises ''quota exceeded''),
              gemini = (\<lambda>_. Raises ''quota exceeded'')\<rparr>"
  have s: "spec_retryable ''quota exceeded''" by code_simp
  have o: "\<not> openai_retryable ''quota exceeded''" by code_simp
  have g: "gemini_retryable ''quota exceeded''" by code_simp
  have a: "attempts openai_retryable ''GPT'' OpenAI (\<lambda>_. Raises ''quota exceeded'') 0
             = (None, [Call OpenAI 0])"
    using o by (simp add: attempts_abandon[where e = "''quota exceeded''"])
  have b: "attempts gemini_retryable ''Gemini'' Gemini (\<lambda>_. Raises ''quota exceeded'') 0
             = (None, [Call Gemini 0, Sleep (3 / 2), Call Gemini 1, Sleep 3, Call Gemini 2])"
    using g by (intro attempts_exhaust) simp
  have eq: "llm_score ?pv ''sk'' ''gk''
       = (None, [Call OpenAI 0,
                 Call Gemini 0, Sleep (3 / 2), Call Gemini 1, Sleep 3, Call Gemini 2])"
    using a b by (simp add: llm_score_def)
  show ?thesis
    unfolding eq using s by (simp add: calls_to_def MAX_RETRIES_def)
qed

text \<open>
  Claim C4, as amended. The primary provider (OpenAI) classifies an error as retryable
  exactly when its lower-cased message contains \<open>rate\<close>, \<open>429\<close>, \<open>timeout\<close> or
  \<open>overloaded\<close>, and the fallback provider (Gemini) exactly when it contains \<open>rate\<close>,
  \<open>429\<close>, \<open>quota\<close> or \<open>resource\<close>. For either provider, a retryable error before the
  last attempt is followed by a wait of \<open>(attemptIndex + 1) * 1.5\<close> seconds and the next
  attempt; an error that is not retryable, or one at the last attempt, ends the attempts
  at that provider with no result and no wait; and when the primary provider gives no
  result, the judge goes on to the fallback.
\<close>

theorem retry_policy:
  "(openai_retryable e \<longleftrightarrow>
      contains ''rate'' (lower e) \<or> contains ''429'' (lower e)
      \<or> contains ''timeout'' (lower e) \<or> contains ''overloaded'' (lower e))
   \<and> (gemini_retryable e \<longleftrightarrow>
      contains ''rate'' (lower e) \<or> contains ''429'' (lower e)
      \<or> contains ''quota'' (lower e) \<or> contains ''resource'' (lower e))
   \<and> (call a = Raises e \<and> R e \<and> a < MAX_RETRIES \<longrightarrow>
        attempts R tag p call a =
          (fst (attempts R tag p call (a + 1)),
           Call p a # Sleep ((of_nat a + 1) * (15 / 10)) # snd (attempts R tag p call (a + 1))))
   \<and> (call a = Raises e \<and> a \<le> MAX_RETRIES \<and> (\<not> R e \<or> a = MAX_RETRIES) \<longrightarrow>
        attempts R tag p call a = (None, [Call p a]))
   \<and> (openai_key \<noteq> [] \<and> gemini_key \<noteq> []
        \<and> fst (attempts openai_retryable ''GPT'' OpenAI (openai pv) 0) = None \<longrightarrow>
        llm_score pv openai_key gemini_key =
          (fst (attempts gemini_retryable ''Gemini'' Gemini (gemini pv) 0),
           snd (attempts openai_retryable ''GPT'' OpenAI (openai pv) 0)
             @ snd (attempts gemini_retryable ''Gemini'' Gemini (gemini pv) 0)))"
proof -
  have a: "openai_retryable e \<longleftrightarrow>
      contains ''rate'' (lower e) \<or> contains ''429'' (lower e)
      \<or> contains ''timeout'' (lower e) \<or> contains ''overloaded'' (lower e)"
    by (simp add: openai_retryable_def Let_def)
  have b: "gemini_retryable e \<longleftrightarrow>
      contains ''rate'' (lower e) \<or> contains ''429'' (lower e)
      \<or> contains ''quota'' (lower e) \<or> contains ''resource'' (lower e)"
    by (simp add: gemini_retryable_def Let_def)
  have c: "call a = Raises e \<and> R e \<and> a < MAX_RETRIES \<longrightarrow>
        attempts R tag p call a =
          (fst (attempts R tag p call (a + 1)),
           Call p a # Sleep ((of_nat a + 1) * (15 / 10)) # snd (attempts R tag p call (a + 1)))"
    using attempts_retry by blast
  have d: "call a = Raises e \<and> a \<le> MAX_RETRIES \<and> (\<not> R e \<or> a = MAX_RETRIES) \<longrightarrow>
        attempts R tag p call a = (None, [Call p a])"
    using attempts_abandon by blast
  have f: "openai_key \<noteq> [] \<and> gemini_key \<noteq> []
        \<and> fst (attempts openai_retryable ''GPT'' OpenAI (openai pv) 0) = None \<longrightarrow>
        llm_score pv openai_key gemini_key =
          (fst (attempts gemini_retryable ''Gemini'' Gemini (gemini pv) 0),
           snd (attempts openai_retryable ''GPT'' OpenAI (openai pv) 0)
             @ snd (attempts gemini_retryable ''Gemini'' Gemini (gemini pv) 0))"
    by (simp add: llm_score_def Let_def)
  from a b c d f show ?thesis by blast
qed

text \<open>
  The theorem at a primary provider that is rate limited once and then fails for good,
  and a fallback that answers: one wait of 1.5 seconds, a second attempt, then the
  fallback.
\<close>

theorem retry_policy_witness:
  "openai_retryable ''Rate limit reached''
   \<and> \<not> openai_retryable ''invalid api key''
   \<and> llm_score
        \<lparr>openai = (\<lambda>a. if a = 0 then Raises ''Rate limit reached'' else Raises ''invalid api key''),
         gemini = (\<lambda>_. Replies [(''overall_score'', JNum 70)])\<rparr> ''sk'' ''gk''
       = (Some [(''overall_score'', JNum 70), (''llm_provider'', JStr ''Gemini'')],
          [Call OpenAI 0, Sleep (3 / 2), Call OpenAI 1, Call Gemini 0])"
proof -
  let ?o = "\<lambda>a::nat. if a = 0 then Raises ''Rate limit reached'' else Raises ''invalid api key''"
  let ?g = "\<lambda>_::nat. Replies [(''overall_score'', JNum 70)]"
  let ?pv = "\<lparr>openai = ?o, gemini = ?g\<rparr>"
  have r0: "openai_retryable ''Rate limit reached''" by code_simp
  have r1: "\<not> openai_retryable ''invalid api key''" by code_simp
  note T0 = retry_policy[of "''Rate limit reached''" ?o 0 openai_retryable "''GPT''" OpenAI
              "''sk''" "''gk''" ?pv]
  note T1 = retry_policy[of "''invalid api key''" ?o 1 openai_retryable "''GPT''" OpenAI
              "''sk''" "''gk''" ?pv]
  have s1: "attempts openai_retryable ''GPT'' OpenAI ?o 1 = (None, [Call OpenAI 1])"
    using T1 r1 by (simp add: MAX_RETRIES_def)
  have s0: "attempts openai_retryable ''GPT'' OpenAI ?o 0
              = (None, [Call OpenAI 0, Sleep (3 / 2), Call OpenAI 1])"
    using T0 r0 s1 by (simp add: MAX_RETRIES_def)
  have g: "attempts gemini_retryable ''Gemini'' Gemini ?g 0
             = (Some [(''overall_score'', JNum 70), (''llm_provider'', JStr ''Gemini'')],
                [Call Gemini 0])"
    by (simp add: attempts_success)
  from T0 s0 g r0 r1 show ?thesis by simp
qed

text \<open>
  The claim as stated fails: a message that indicates a timeout is not retried by the
  fallback provider, and one that indicates an exhausted quota is not retried by the
  primary provider; each provider is given up after a single call.
\<close>

theorem retry_classification_counterexample:
  "spec_retryable ''Request timeout'' \<and> \<not> gemini_retryable ''Request timeout''
   \<and> attempts gemini_retryable ''Gemini'' Gemini (\<lambda>_. Raises ''Request timeout'') 0
       = (None, [Call Gemini 0])
   \<and> spec_retryable ''quota exceeded'' \<and> \<not> openai_retryable ''quota exceeded''
   \<and> attempts openai_retryable ''GPT'' OpenAI (\<lambda>_. Raises ''quota exceeded'') 0
       = (None, [Call OpenAI 0])"
proof -
  have a: "spec_retryable ''Request timeout''" by code_simp
  have b: "\<not> gemini_retryable ''Request timeout''" by code_simp
  have c: "spec_retryable ''quota exceeded''" by code_simp
  have d: "\<not> openai_retryable ''quota exceeded''" by code_simp
  from a b c d show ?thesis
    by (simp add: attempts_abandon[where e = "''Request timeout''"]
          attempts_abandon[where e = "''quota exceeded''"])
qed

section \<open>Properties of the Resume Scorer\<close>

lemma dict_set_fresh: "k \<notin> fst ` set d \<Longrightarrow> dict_set k v d = d @ [(k, v)]"
  by (induction d) auto

lemma fold_dict_set_fresh:
  "distinct (map fst es) \<Longrightarrow> fst ` set es \<inter> fst ` set d = {} \<Longrightarrow>
     fold (\<lambda>e d. dict_set (fst e) (snd e) d) es d = d @ es"
proof (induction es arbitrary: d)
  case Nil
  then show ?case by simp
next
  case (Cons e es)
  have fresh: "fst e \<notin> fst ` set d" using Cons.prems(2) by auto
  have "fold (\<lambda>e d. dict_set (fst e) (snd e) d) es (d @ [e]) = (d @ [e]) @ es"
    using Cons.prems by (intro Cons.IH) auto
  then show ?case using fresh by (simp add: dict_set_fresh)
qed

lemma dict_of_distinct: "distinct (map fst es) \<Longrightarrow> dict_of es = es"
  using fold_dict_set_fresh[of es "[]"] by (simp add: dict_of_def)

lemma map_of_dict_set: "map_of (dict_set k v d) = (map_of d)(k \<mapsto> v)"
  by (induction d) (auto simp: fun_eq_iff)

lemma dict_get_dict_set:
  "dict_get (dict_set k v d) k' = (if k' = k then Some v else dict_get d k')"
  by (simp add: dict_get_def map_of_dict_set)

lemma dict_set_nonempty: "dict_set k v d \<noteq> []"
  by (cases d) (auto split: if_splits)

lemma attempts_Some:
  "fst (attempts R tag p call a) = Some r \<Longrightarrow>
     dict_get r ''llm_provider'' = Some (JStr tag) \<and> r \<noteq> []
     \<and> snd (attempts R tag p call a) \<noteq> []
     \<and> (\<exists>k. last (snd (attempts R tag p call a)) = Call p k)"
proof (induction R tag p call a rule: attempts.induct)
  case (1 R tag p call a)
  show ?case
  proof (cases "call a")
    case (Replies d)
    with 1(2) have lt: "a < MAX_RETRIES + 1"
      by (subst (asm) attempts.simps) (auto split: if_splits)
    with Replies have eq: "attempts R tag p call a
        = (Some (dict_set ''llm_provider'' (JStr tag) d), [Call p a])"
      by (subst attempts.simps) simp
    with 1(2) show ?thesis
      by (auto simp: dict_get_dict_set dict_set_nonempty)
  next
    case (Raises m)
    show ?thesis
    proof (cases "a < MAX_RETRIES + 1 \<and> R m \<and> a < MAX_RETRIES")
      case True
      with Raises have eq: "attempts R tag p call a =
           (fst (attempts R tag p call (a + 1)),
            Call p a # Sleep ((of_nat a + 1) * (15 / 10)) # snd (attempts R tag p call (a + 1)))"
        by (simp add: attempts_retry)
      with 1(2) have "fst (attempts R tag p call (a + 1)) = Some r" by simp
      then have "dict_get r ''llm_provider'' = Some (JStr tag) \<and> r \<noteq> []
           \<and> snd (attempts R tag p call (a + 1)) \<noteq> []
           \<and> (\<exists>k. last (snd (attempts R tag p call (a + 1))) = Call p k)"
        using 1(1)[OF _ Raises _ refl] True by simp
      then show ?thesis by (simp add: eq)
    next
      case False
      with 1(2) Raises show ?thesis
        by (subst (asm) attempts.simps) (auto split: if_splits)
    qed
  qed
qed

lemma llm_score_Some:
  assumes "fst (llm_score pv ok gk) = Some r"
  shows "r \<noteq> [] \<and> (\<exists>p a. last (snd (llm_score pv ok gk)) = Call p a
            \<and> dict_get r ''llm_provider'' = Some (JStr (provider_name p)))"
proof -
  let ?A = "if ok \<noteq> [] then attempts openai_retryable ''GPT'' OpenAI (openai pv) 0 else (None, [])"
  let ?B = "if gk \<noteq> [] then attempts gemini_retryable ''Gemini'' Gemini (gemini pv) 0 else (None, [])"
  show ?thesis
  proof (cases "fst ?A")
    case (Some r1)
    then have eq: "llm_score pv ok gk = (Some r1, snd ?A)"
      by (simp add: llm_score_def Let_def)
    with assms have r: "r1 = r" by simp
    from Some have k: "ok \<noteq> []" by (auto split: if_splits)
    with Some r have "fst (attempts openai_retryable ''GPT'' OpenAI (openai pv) 0) = Some r"
      by simp
    from attempts_Some[OF this] k show ?thesis
      unfolding eq by (auto intro: exI[of _ OpenAI])
  next
    case None
    then have eq: "llm_score pv ok gk = (fst ?B, snd ?A @ snd ?B)"
      by (simp add: llm_score_def Let_def)
    with assms have B: "fst ?B = Some r" by simp
    then have k: "gk \<noteq> []" by (auto split: if_splits)
    with B have "fst (attempts gemini_retryable ''Gemini'' Gemini (gemini pv) 0) = Some r"
      by simp
    from attempts_Some[OF this] k show ?thesis
      unfolding eq by (auto intro: exI[of _ Gemini])
  qed
qed

lemma keyword_record_eq:
  "keyword_record kw =
     [(''ATS Score'', JNum (score kw)),
      (''Phone Number'', JStr ''Not Found''),
      (''Email'', JStr ''Not Found''),
      (''Photo Link'', JStr ''Not Found''),
      (''Resume Summary'', JStr ''LLMs failed or keys missing. Scored via keywords only.''),
      (''Missing Requirements'', JStr (join '', '' (missing_keywords kw))),
      (''Job Description Summary'', JStr ''Not Found''),
      (''Target Job Role'', JStr ''Not Found''),
      (''Best Fit Role'', JStr ''Not Found''),
      (''Recommendation'', JStr ''Maybe''),
      (''Status'', JStr ''Keyword'')]"
  unfolding keyword_record_def by (rule dict_of_distinct) simp

lemma to_float_eq:
  "to_float v = Inr L \<longleftrightarrow> to_number v = Inr L \<and> \<bar>L\<bar> < FLOAT_LIMIT"
  by (auto simp: to_float_def split: sum.splits)

lemma llm_record_eq:
  assumes "to_number (get_default r ''overall_score'' (JNum 0)) = Inr L"
    and "\<bar>L\<bar> < FLOAT_LIMIT"
    and "join_json (get_default r ''missing_requirements'' (JArr [])) = Inr mr"
  shows "llm_record run kw r =
     Inr [(''ATS Score'', JNum (round1 (float_add (float_mul L LLM_WEIGHT)
                                        (float_mul (score kw) KEYWORD_WEIGHT)))),
          (''Phone Number'', get_default r ''phone_number'' (JStr ''Not Found'')),
          (''Email'', get_default r ''email'' (JStr ''Not Found'')),
          (''Photo Link'', get_default r ''photo_link'' (JStr ''Not Found'')),
          (''Resume Summary'', get_default r ''summary'' (JStr '''')),
          (''Missing Requirements'', JStr mr),
          (''Job Description Summary'', get_default r ''job_description_summary'' (JStr '''')),
          (''Target Job Role'', get_default r ''target_job_role'' (JStr '''')),
          (''Best Fit Role'', get_default r ''best_fit_role'' (JStr '''')),
          (''Recommendation'',
             JStr (if capitalize (py_str run (get_default r ''recommendation'' (JStr ''Maybe'')))
                        \<notin> set [''Yes'', ''No'', ''Maybe'']
                   then ''Maybe''
                   else capitalize (py_str run (get_default r ''recommendation'' (JStr ''Maybe''))))),
          (''Status'', get_default r ''llm_provider'' (JStr ''GPT'')),
          (''Candidate Name Extracted'', get_default r ''candidate_name'' (JStr ''''))]"
proof -
  have f: "to_float (get_default r ''overall_score'' (JNum 0)) = Inr L"
    using assms(1,2) by (simp add: to_float_eq)
  show ?thesis
    unfolding llm_record_def Let_def f assms(3) sum.case
    by (subst dict_of_distinct) simp_all
qed

lemma llm_record_Inl:
  "llm_record run kw r = Inl e \<longleftrightarrow>
     to_float (get_default r ''overall_score'' (JNum 0)) = Inl e
     \<or> ((\<exists>L. to_float (get_default r ''overall_score'' (JNum 0)) = Inr L)
         \<and> join_json (get_default r ''missing_requirements'' (JArr [])) = Inl e)"
  by (auto simp: llm_record_def Let_def split: sum.splits)

lemma llm_record_Inr_D:
  assumes "llm_record run kw r = Inr d"
  shows "\<exists>L mr. to_number (get_default r ''overall_score'' (JNum 0)) = Inr L
           \<and> \<bar>L\<bar> < FLOAT_LIMIT
           \<and> join_json (get_default r ''missing_requirements'' (JArr [])) = Inr mr"
proof -
  from assms obtain L mr where
    "to_float (get_default r ''overall_score'' (JNum 0)) = Inr L"
    "join_json (get_default r ''missing_requirements'' (JArr [])) = Inr mr"
    by (auto simp: llm_record_def Let_def split: sum.splits)
  then show ?thesis by (auto simp: to_float_eq)
qed


text \<open>
  Float arithmetic: rounding to the nearest float keeps the sign and does not cross an
  integer, so the blend of two scores in \<open>[0, 100]\<close> lies in \<open>[0, 100]\<close>.
\<close>

lemma pow2_pos: "0 < pow2 k"
  by (simp add: pow2_def)

text \<open>\<open>exponent x\<close> is the binary exponent of a positive \<open>x\<close>.\<close>

lemma exponent_bounds:
  assumes "0 < x"
  shows "pow2 (exponent x) \<le> x \<and> x < pow2 (exponent x + 1)"
proof (cases "1 \<le> x")
  case True
  define f where "f = \<lfloor>x\<rfloor>"
  have f: "0 < f" using True by (simp add: f_def)
  then have b1: "1 \<le> bitlen f" using bitlen_eq_zero_iff[of f] bitlen_nonneg[of f] by linarith
  note B = bitlen_bounds[OF f]
  have e: "exponent x = bitlen f - 1" using True by (simp add: exponent_def f_def)
  have lo: "(2::rat) ^ nat (bitlen f - 1) \<le> of_int f"
  proof -
    from B have "(of_int (2 ^ nat (bitlen f - 1)) :: rat) \<le> of_int f"
      by (simp only: of_int_le_iff)
    then show ?thesis by simp
  qed
  have "of_int f \<le> x" by (simp add: f_def)
  with lo have "2 ^ nat (bitlen f - 1) \<le> x" by (rule order_trans)
  then have l: "pow2 (exponent x) \<le> x" using b1 by (simp add: e pow2_def)
  from B have "f + 1 \<le> 2 ^ nat (bitlen f)" by simp
  then have "(of_int (f + 1) :: rat) \<le> of_int (2 ^ nat (bitlen f))"
    by (simp only: of_int_le_iff)
  then have hi: "(of_int f + 1 :: rat) \<le> 2 ^ nat (bitlen f)" by simp
  have "x < of_int f + 1" unfolding f_def by linarith
  with hi have "x < 2 ^ nat (bitlen f)" by linarith
  then have u: "x < pow2 (exponent x + 1)" using b1 by (simp add: e pow2_def)
  from l u show ?thesis by blast
next
  case False
  define y where "y = 1 / x"
  define c where "c = \<lceil>y\<rceil> - 1"
  have y1: "1 < y" using False assms by (simp add: y_def)
  then have "1 < \<lceil>y\<rceil>" by (simp add: less_ceiling_iff)
  then have c: "0 < c" by (simp add: c_def)
  then have b1: "1 \<le> bitlen c" using bitlen_eq_zero_iff[of c] bitlen_nonneg[of c] by linarith
  note B = bitlen_bounds[OF c]
  have e: "exponent x = - bitlen c" using False by (simp add: exponent_def c_def y_def)
  have cy: "of_int c < y" "y \<le> of_int c + 1"
    unfolding c_def using ceiling_correct[of y] by simp_all
  from B have "c + 1 \<le> 2 ^ nat (bitlen c)" by simp
  then have "(of_int (c + 1) :: rat) \<le> of_int (2 ^ nat (bitlen c))"
    by (simp only: of_int_le_iff)
  then have "(of_int c + 1 :: rat) \<le> 2 ^ nat (bitlen c)" by simp
  with cy have yu: "y \<le> 2 ^ nat (bitlen c)" by linarith
  from B have "(of_int (2 ^ nat (bitlen c - 1)) :: rat) \<le> of_int c"
    by (simp only: of_int_le_iff)
  then have "(2::rat) ^ nat (bitlen c - 1) \<le> of_int c" by simp
  with cy have yl: "2 ^ nat (bitlen c - 1) < y" by linarith
  have x: "1 / y = x" using assms by (simp add: y_def)
  have l: "pow2 (exponent x) \<le> x"
  proof -
    have "pow2 (exponent x) = 1 / 2 ^ nat (bitlen c)"
      using b1 by (simp add: e pow2_def)
    also have "\<dots> \<le> 1 / y"
      using yu y1 by (intro divide_left_mono) simp_all
    also note x
    finally show ?thesis .
  qed
  have u: "x < pow2 (exponent x + 1)"
  proof -
    have p: "pow2 (exponent x + 1) = 1 / 2 ^ nat (bitlen c - 1)"
    proof (cases "bitlen c = 1")
      case True
      then show ?thesis by (simp add: e pow2_def)
    next
      case False
      moreover have "nat (bitlen c - 1) = nat (- (1 - bitlen c))" by simp
      ultimately show ?thesis using b1 by (simp add: e pow2_def)
    qed
    note x[symmetric]
    also have "1 / y < 1 / 2 ^ nat (bitlen c - 1)"
      using yl y1 by (intro divide_strict_left_mono) simp_all
    also note p[symmetric]
    finally show ?thesis .
  qed
  from l u show ?thesis by blast
qed

lemma nearest_float_nonneg:
  assumes "0 \<le> x"
  shows "0 \<le> nearest_float x"
proof (cases "x = 0")
  case True
  then show ?thesis by (simp add: nearest_float_def)
next
  case False
  define u where "u = pow2 (max (exponent \<bar>x\<bar>) (- 1022) - 52)"
  have u: "0 < u" unfolding u_def by (rule pow2_pos)
  with assms have "of_int 0 \<le> x / u" by simp
  then have "0 \<le> round_half_even (x / u)" by (rule round_half_even_lower)
  with u False show ?thesis
    by (simp add: nearest_float_def Let_def u_def[symmetric])
qed

lemma exponent_le:
  assumes "0 < x" "x \<le> of_int n" "n < 2 ^ 53"
  shows "exponent x \<le> 52"
proof (cases "1 \<le> x")
  case True
  from assms(2) have "\<lfloor>x\<rfloor> \<le> n" by (simp add: floor_le_iff)
  from this assms(3) have "\<lfloor>x\<rfloor> < 2 ^ 53" by (rule le_less_trans)
  then have "bitlen \<lfloor>x\<rfloor> \<le> 53"
    using bitlen_le_iff_power[of "\<lfloor>x\<rfloor>" 53] by simp
  with True show ?thesis by (simp add: exponent_def)
next
  case False
  have "0 \<le> bitlen (\<lceil>1 / x\<rceil> - 1)" by (rule bitlen_nonneg)
  with False show ?thesis by (simp add: exponent_def)
qed

text \<open>Rounding to the nearest float does not cross an integer below \<open>2^53\<close>.\<close>

lemma nearest_float_le_int:
  assumes "x \<le> of_int n" "0 \<le> n" "n < 2 ^ 53"
  shows "nearest_float x \<le> of_int n"
proof (cases "0 < x")
  case False
  then have "- x \<ge> 0" by simp
  show ?thesis
  proof (cases "x = 0")
    case True
    with assms(2) show ?thesis by (simp add: nearest_float_def)
  next
    case nz: False
    define u where "u = pow2 (max (exponent \<bar>x\<bar>) (- 1022) - 52)"
    have u: "0 < u" unfolding u_def by (rule pow2_pos)
    from False u have "x / u \<le> of_int 0" by (simp add: divide_nonpos_pos)
    then have "round_half_even (x / u) \<le> 0" by (rule round_half_even_upper)
    then have "of_int (round_half_even (x / u)) * u \<le> 0"
      using u by (simp add: mult_le_0_iff)
    with nz assms(2) show ?thesis
      by (simp add: nearest_float_def Let_def u_def[symmetric])
  qed
next
  case True
  define m where "m = nat (52 - max (exponent \<bar>x\<bar>) (- 1022))"
  have e: "max (exponent \<bar>x\<bar>) (- 1022) \<le> 52"
    using exponent_le[OF True assms(1,3)] True by simp
  then have ulp: "pow2 (max (exponent \<bar>x\<bar>) (- 1022) - 52) = 1 / 2 ^ m"
    unfolding m_def pow2_def
    by (cases "max (exponent \<bar>x\<bar>) (- 1022) = 52") (simp_all add: algebra_simps)
  have "x * 2 ^ m \<le> of_int (n * 2 ^ m)"
    using assms(1) by simp
  then have "round_half_even (x * 2 ^ m) \<le> n * 2 ^ m"
    by (rule round_half_even_upper)
  then have "(of_int (round_half_even (x * 2 ^ m)) :: rat) \<le> of_int (n * 2 ^ m)"
    by (simp only: of_int_le_iff)
  then have "of_int (round_half_even (x * 2 ^ m)) / 2 ^ m \<le> (of_int n :: rat)"
    by (simp add: divide_le_eq)
  with True ulp show ?thesis
    by (simp add: nearest_float_def Let_def)
qed

lemma float_weights:
  "nearest_float LLM_WEIGHT = 3152519739159347 / 4503599627370496"
  "nearest_float KEYWORD_WEIGHT = 5404319552844595 / 18014398509481984"
  by code_simp+

lemma float_mul_range:
  assumes "0 \<le> x" "x \<le> 100" "0 \<le> nearest_float w" "100 * nearest_float w \<le> of_int n"
    and "0 \<le> n" "n < 2 ^ 53"
  shows "0 \<le> float_mul x w \<and> float_mul x w \<le> of_int n"
proof -
  have a: "0 \<le> nearest_float x" using assms(1) by (rule nearest_float_nonneg)
  have b: "nearest_float x \<le> of_int 100"
    using assms(2) by (intro nearest_float_le_int) simp_all
  have "nearest_float x * nearest_float w \<le> 100 * nearest_float w"
    using b assms(3) by (intro mult_right_mono) simp_all
  with assms(4) have le: "nearest_float x * nearest_float w \<le> of_int n" by linarith
  have ge: "0 \<le> nearest_float x * nearest_float w" using a assms(3) by simp
  show ?thesis
    unfolding float_mul_def
    using nearest_float_nonneg[OF ge] nearest_float_le_int[OF le assms(5,6)] by simp
qed

lemma blend_range:
  fixes L K :: rat
  assumes "0 \<le> L" "L \<le> 100" "0 \<le> K" "K \<le> 100"
  shows "0 \<le> round1 (float_add (float_mul L LLM_WEIGHT) (float_mul K KEYWORD_WEIGHT))
       \<and> round1 (float_add (float_mul L LLM_WEIGHT) (float_mul K KEYWORD_WEIGHT)) \<le> 100"
proof -
  define p where "p = float_mul L LLM_WEIGHT"
  define q where "q = float_mul K KEYWORD_WEIGHT"
  have p: "0 \<le> p \<and> p \<le> of_int 70"
    unfolding p_def using assms(1,2)
    by (intro float_mul_range) (simp_all add: float_weights)
  have q: "0 \<le> q \<and> q \<le> of_int 30"
    unfolding q_def using assms(3,4)
    by (intro float_mul_range) (simp_all add: float_weights)
  have p': "0 \<le> nearest_float p" "nearest_float p \<le> of_int 70"
    using p nearest_float_nonneg[of p] nearest_float_le_int[of p 70] by simp_all
  have q': "0 \<le> nearest_float q" "nearest_float q \<le> of_int 30"
    using q nearest_float_nonneg[of q] nearest_float_le_int[of q 30] by simp_all
  have s: "0 \<le> nearest_float p + nearest_float q"
    "nearest_float p + nearest_float q \<le> of_int 100"
    using p' q' by simp_all
  have "0 \<le> float_add p q \<and> float_add p q \<le> 100"
    unfolding float_add_def
    using nearest_float_nonneg[OF s(1)] nearest_float_le_int[OF s(2)] by simp
  then show ?thesis
    unfolding p_def[symmetric] q_def[symmetric] by (intro round1_range) simp_all
qed

text \<open>
  The rounding of the float operations shows in the result: for the scores 76 and 0.5
  the floats \<open>53.199999999999996\<close> and \<open>0.15\<close> add up to \<open>53.349999999999994\<close>, which
  rounds to 53.3, where the exact sum 53.35 would round to 53.4.
\<close>

lemma blend_rounding_example:
  "round1 (float_add (float_mul 76 LLM_WEIGHT) (float_mul (1 / 2) KEYWORD_WEIGHT)) = 533 / 10
   \<and> round1 (76 * (7 / 10) + (1 / 2) * (3 / 10)) = 534 / 10"
  by code_simp





text \<open>
  Claim C2, as amended. Every record that the Resume Scorer returns, for any resume text,
  JD text and outcome of the LLM Judge, has a Recommendation among Yes, No and Maybe and
  a Status among GPT, Gemini and Keyword (so never empty), and a number as ATS Score;
  that number lies in \<open>[0, 100]\<close> when the similarity lies in \<open>[0, 1]\<close> and the overall
  score of the LLM result, if there is a result, lies in \<open>[0, 100]\<close>. (The overall score
  that the LLM returns is not clamped.)
\<close>

theorem score_record_invariant:
  "score_resume run pv resume_text jd_text openai_key gemini_key = Inr d \<longrightarrow>
     dict_get d ''Recommendation''
       \<in> {Some (JStr ''Yes''), Some (JStr ''No''), Some (JStr ''Maybe'')}
     \<and> dict_get d ''Status''
       \<in> {Some (JStr ''GPT''), Some (JStr ''Gemini''), Some (JStr ''Keyword'')}
     \<and> (\<exists>q. dict_get d ''ATS Score'' = Some (JNum q)
          \<and> ((\<forall>s. tfidf_cosine run resume_text jd_text = Some s \<longrightarrow> 0 \<le> s \<and> s \<le> 1)
              \<and> (\<forall>r L. fst (llm_score pv openai_key gemini_key) = Some r
                        \<and> to_number (get_default r ''overall_score'' (JNum 0)) = Inr L
                        \<longrightarrow> 0 \<le> L \<and> L \<le> 100)
              \<longrightarrow> 0 \<le> q \<and> q \<le> 100))"
proof
  let ?kw = "keyword_score (tfidf_cosine run) resume_text jd_text"
  let ?P = "\<lambda>d. dict_get d ''Recommendation''
       \<in> {Some (JStr ''Yes''), Some (JStr ''No''), Some (JStr ''Maybe'')}
     \<and> dict_get d ''Status''
       \<in> {Some (JStr ''GPT''), Some (JStr ''Gemini''), Some (JStr ''Keyword'')}
     \<and> (\<exists>q. dict_get d ''ATS Score'' = Some (JNum q)
          \<and> ((\<forall>s. tfidf_cosine run resume_text jd_text = Some s \<longrightarrow> 0 \<le> s \<and> s \<le> 1)
              \<and> (\<forall>r L. fst (llm_score pv openai_key gemini_key) = Some r
                        \<and> to_number (get_default r ''overall_score'' (JNum 0)) = Inr L
                        \<longrightarrow> 0 \<le> L \<and> L \<le> 100)
              \<longrightarrow> 0 \<le> q \<and> q \<le> 100))"
  assume S: "score_resume run pv resume_text jd_text openai_key gemini_key = Inr d"
  have kw: "?P (keyword_record ?kw)"
    using keyword_score_range[of "tfidf_cosine run" resume_text jd_text]
    by (simp add: keyword_record_eq dict_get_def)
  show "?P d"
  proof (cases "fst (llm_score pv openai_key gemini_key)")
    case None
    with S have "d = keyword_record ?kw" by (simp add: score_resume_def Let_def)
    with kw show ?thesis by simp
  next
    case (Some r)
    from llm_score_Some[OF Some] obtain p a where
      ne: "r \<noteq> []" and tag: "dict_get r ''llm_provider'' = Some (JStr (provider_name p))"
      by blast
    from S Some ne have R: "llm_record run ?kw r = Inr d"
      by (simp add: score_resume_def Let_def)
    from llm_record_Inr_D[OF R] obtain L mr where
      num: "to_number (get_default r ''overall_score'' (JNum 0)) = Inr L"
      and lim: "\<bar>L\<bar> < FLOAT_LIMIT"
      and jn: "join_json (get_default r ''missing_requirements'' (JArr [])) = Inr mr"
      by blast
    note E = llm_record_eq[OF num lim jn, of run ?kw]
    have st: "get_default r ''llm_provider'' (JStr ''GPT'') = JStr (provider_name p)"
      using tag by (simp add: get_default_def)
    have a: "dict_get d ''Recommendation''
       \<in> {Some (JStr ''Yes''), Some (JStr ''No''), Some (JStr ''Maybe'')}"
      using E R by (auto simp: dict_get_def)
    have b: "dict_get d ''Status''
       \<in> {Some (JStr ''GPT''), Some (JStr ''Gemini''), Some (JStr ''Keyword'')}"
      using E R st by (cases p) (auto simp: dict_get_def)
    have c: "dict_get d ''ATS Score''
               = Some (JNum (round1 (float_add (float_mul L LLM_WEIGHT)
                                               (float_mul (score ?kw) KEYWORD_WEIGHT))))"
      using E R by (auto simp: dict_get_def)
    have rng: "0 \<le> round1 (float_add (float_mul L LLM_WEIGHT)
                                    (float_mul (score ?kw) KEYWORD_WEIGHT))
             \<and> round1 (float_add (float_mul L LLM_WEIGHT)
                                  (float_mul (score ?kw) KEYWORD_WEIGHT)) \<le> 100"
      if "\<forall>s. tfidf_cosine run resume_text jd_text = Some s \<longrightarrow> 0 \<le> s \<and> s \<le> 1"
        and "\<forall>r L. fst (llm_score pv openai_key gemini_key) = Some r
                        \<and> to_number (get_default r ''overall_score'' (JNum 0)) = Inr L
                        \<longrightarrow> 0 \<le> L \<and> L \<le> 100"
    proof -
      from that(2) Some num have "0 \<le> L" "L \<le> 100" by blast+
      moreover from keyword_score_range[of "tfidf_cosine run" resume_text jd_text] that(1)
      have "0 \<le> score ?kw" "score ?kw \<le> 100" by blast+
      ultimately show ?thesis by (intro blend_range)
    qed
    from a b c rng show ?thesis by blast
  qed
qed

text \<open>
  The theorem at a result of the primary provider with overall score 85, recommendation
  \<open>yes\<close> and a similarity of one half.
\<close>

theorem score_record_invariant_witness:
  "score_resume
      \<lparr>tfidf_cosine = (\<lambda>_ _. Some (1 / 2)), repr = (\<lambda>_. []), builtin_text = (\<lambda>_. [])\<rparr>
      \<lparr>openai = (\<lambda>_. Replies [(''overall_score'', JNum 85), (''recommendation'', JStr ''yes'')]),
       gemini = (\<lambda>_. Raises [])\<rparr>
      ''Python and Java'' ''python java ruby'' ''sk'' []
     = Inr [(''ATS Score'', JNum (149 / 2)),
            (''Phone Number'', JStr ''Not Found''),
            (''Email'', JStr ''Not Found''), (''Photo Link'', JStr ''Not Found''),
            (''Resume Summary'', JStr []), (''Missing Requirements'', JStr []),
            (''Job Description Summary'', JStr []),
            (''Target Job Role'', JStr []), (''Best Fit Role'', JStr []),
            (''Recommendation'', JStr ''Yes''), (''Status'', JStr ''GPT''),
            (''Candidate Name Extracted'', JStr [])]
   \<and> (0::rat) \<le> 149 / 2 \<and> (149 / 2 :: rat) \<le> 100"
proof -
  let ?run = "\<lparr>tfidf_cosine = (\<lambda>_ _. Some (1 / 2 :: rat)), repr = (\<lambda>_. []),
               builtin_text = (\<lambda>_. [])\<rparr>"
  let ?reply = "[(''overall_score'', JNum 85), (''recommendation'', JStr ''yes'')]"
  let ?pv = "\<lparr>openai = (\<lambda>_. Replies ?reply), gemini = (\<lambda>_. Raises [])\<rparr>"
  let ?d = "[(''ATS Score'', JNum (149 / 2)),
            (''Phone Number'', JStr ''Not Found''),
            (''Email'', JStr ''Not Found''), (''Photo Link'', JStr ''Not Found''),
            (''Resume Summary'', JStr []), (''Missing Requirements'', JStr []),
            (''Job Description Summary'', JStr []),
            (''Target Job Role'', JStr []), (''Best Fit Role'', JStr []),
            (''Recommendation'', JStr ''Yes''), (''Status'', JStr ''GPT''),
            (''Candidate Name Extracted'', JStr [])]"
  have S: "score_resume ?run ?pv ''Python and Java'' ''python java ruby'' ''sk'' [] = Inr ?d"
    by code_simp
  have l: "llm_score ?pv ''sk'' [] = (Some (?reply @ [(''llm_provider'', JStr ''GPT'')]), [Call OpenAI 0])"
    by (simp add: llm_score_def attempts_success)
  have h1: "\<forall>s. tfidf_cosine ?run ''Python and Java'' ''python java ruby'' = Some s
              \<longrightarrow> 0 \<le> s \<and> s \<le> 1"
    by simp
  have h2: "\<forall>r L. fst (llm_score ?pv ''sk'' []) = Some r
              \<and> to_number (get_default r ''overall_score'' (JNum 0)) = Inr L
              \<longrightarrow> 0 \<le> L \<and> L \<le> 100"
    unfolding l by (auto simp: get_default_def dict_get_def)
  from score_record_invariant[of ?run ?pv "''Python and Java''" "''python java ruby''"
         "''sk''" "[]" ?d] S h1 h2
  obtain q where "dict_get ?d ''ATS Score'' = Some (JNum q)" "0 \<le> q" "q \<le> 100"
    by blast
  then have "(0::rat) \<le> 149 / 2 \<and> (149 / 2 :: rat) \<le> 100"
    by (simp add: dict_get_def)
  with S show ?thesis by blast
qed

text \<open>
  The claim as stated fails: the overall score that the LLM returns is not checked, and
  with an overall score of 200 the ATS Score of the record is 140.
\<close>

theorem ats_score_range_counterexample:
  "(case score_resume
           \<lparr>tfidf_cosine = (\<lambda>_ _. Some 0), repr = (\<lambda>_. []), builtin_text = (\<lambda>_. [])\<rparr>
           \<lparr>openai = (\<lambda>_. Replies [(''overall_score'', JNum 200)]), gemini = (\<lambda>_. Raises [])\<rparr>
           [] ''python'' ''sk'' [] of
      Inl e \<Rightarrow> None
    | Inr d \<Rightarrow> dict_get d ''ATS Score'') = Some (JNum 140)
   \<and> \<not> (140 :: rat) \<le> 100"
  by code_simp

section \<open>Properties of the Multi-JD Resolver\<close>

lemma score_resume_ats:
  assumes "score_resume run pv resume_text jd_text openai_key gemini_key = Inr d"
  shows "\<exists>q. dict_get d ''ATS Score'' = Some (JNum q)"
proof (cases "fst (llm_score pv openai_key gemini_key)")
  case None
  with assms show ?thesis
    by (auto simp: score_resume_def Let_def keyword_record_eq dict_get_def)
next
  case (Some r)
  let ?kw = "keyword_score (tfidf_cosine run) resume_text jd_text"
  show ?thesis
  proof (cases "r = []")
    case True
    with assms Some show ?thesis
      by (auto simp: score_resume_def Let_def keyword_record_eq dict_get_def)
  next
    case False
    with assms Some have R: "llm_record run ?kw r = Inr d"
      by (simp add: score_resume_def Let_def)
    from llm_record_Inr_D[OF R] obtain L mr where
      "to_number (get_default r ''overall_score'' (JNum 0)) = Inr L"
      "\<bar>L\<bar> < FLOAT_LIMIT"
      "join_json (get_default r ''missing_requirements'' (JArr [])) = Inr mr"
      by blast
    from llm_record_eq[OF this, of run ?kw] R show ?thesis
      by (auto simp: dict_get_def)
  qed
qed

text \<open>
  Every record of the scorer has a Target Job Role: the one that the LLM gave, the empty
  string when its result has none, \<open>Not Found\<close> in a record scored by keywords only.
\<close>

lemma score_resume_target_role:
  assumes "score_resume run pv resume_text jd_text openai_key gemini_key = Inr d"
  shows "dict_get d ''Target Job Role''
           = Some (case fst (llm_score pv openai_key gemini_key) of
                     None \<Rightarrow> JStr ''Not Found''
                   | Some r \<Rightarrow> get_default r ''target_job_role'' (JStr ''''))"
proof (cases "fst (llm_score pv openai_key gemini_key)")
  case None
  with assms show ?thesis
    by (auto simp: score_resume_def Let_def keyword_record_eq dict_get_def)
next
  case (Some r)
  let ?kw = "keyword_score (tfidf_cosine run) resume_text jd_text"
  from llm_score_Some[OF Some] have ne: "r \<noteq> []" by blast
  with assms Some have R: "llm_record run ?kw r = Inr d"
    by (simp add: score_resume_def Let_def)
  from llm_record_Inr_D[OF R] obtain L mr where
    "to_number (get_default r ''overall_score'' (JNum 0)) = Inr L"
    "\<bar>L\<bar> < FLOAT_LIMIT"
    "join_json (get_default r ''missing_requirements'' (JArr [])) = Inr mr"
    by blast
  from llm_record_eq[OF this, of run ?kw] R Some show ?thesis
    by (auto simp: dict_get_def)
qed

lemma ats_of_num: "dict_get d ''ATS Score'' = Some (JNum q) \<Longrightarrow> ats_of d = Inr q"
  by (simp add: ats_of_def get_default_def Let_def)

text \<open>A pass over job descriptions none of which beats the best score changes nothing.\<close>

lemma jd_loop_keep:
  assumes "length recs = length jds" "length qs = length jds"
    and "\<forall>i<length jds. score_resume run (ps (i0 + i)) resume_text (jds ! i) oai_key gem_key
            = Inr (recs ! i)"
    and "\<forall>i<length jds. dict_get (recs ! i) ''ATS Score'' = Some (JNum (qs ! i))"
    and "\<forall>i<length jds. qs ! i \<le> best_score"
  shows "jd_loop run ps resume_text oai_key gem_key i0 jds best_score best_data
           = Inr (best_score, best_data)"
  using assms
proof (induction jds arbitrary: i0 recs qs)
  case Nil
  then show ?case by simp
next
  case (Cons jd jds)
  from Cons.prems(1,2) obtain r recs' q qs' where
    recs: "recs = r # recs'" and qs: "qs = q # qs'"
    and len: "length recs' = length jds" "length qs' = length jds"
    by (cases recs; cases qs) auto
  from Cons.prems(3)[rule_format, of 0] recs
  have s0: "score_resume run (ps i0) resume_text jd oai_key gem_key = Inr r" by simp
  from Cons.prems(4)[rule_format, of 0] recs qs
  have a0: "ats_of r = Inr q" by (simp add: ats_of_num)
  from Cons.prems(5)[rule_format, of 0] qs have le: "q \<le> best_score" by simp
  have sc: "\<forall>i<length jds. score_resume run (ps (Suc i0 + i)) resume_text (jds ! i) oai_key gem_key
              = Inr (recs' ! i)"
    using Cons.prems(3) recs by (auto dest: spec[of _ "Suc _"])
  have at: "\<forall>i<length jds. dict_get (recs' ! i) ''ATS Score'' = Some (JNum (qs' ! i))"
    using Cons.prems(4) recs qs by (auto dest: spec[of _ "Suc _"])
  have bd: "\<forall>i<length jds. qs' ! i \<le> best_score"
    using Cons.prems(5) qs by (auto dest: spec[of _ "Suc _"])
  from Cons.IH[OF len sc at bd] s0 a0 le show ?case by simp
qed

text \<open>
  A pass over job descriptions whose first greatest score, at position \<open>j\<close>, beats the
  best score so far ends with that score and its record.
\<close>

lemma jd_loop_winner:
  assumes "length recs = length jds" "length qs = length jds"
    and "\<forall>i<length jds. score_resume run (ps (i0 + i)) resume_text (jds ! i) oai_key gem_key
            = Inr (recs ! i)"
    and "\<forall>i<length jds. dict_get (recs ! i) ''ATS Score'' = Some (JNum (qs ! i))"
    and "j < length jds" "\<forall>i<length jds. qs ! i \<le> qs ! j" "\<forall>i<j. qs ! i < qs ! j"
    and "best_score < qs ! j"
  shows "jd_loop run ps resume_text oai_key gem_key i0 jds best_score best_data
           = Inr (qs ! j, Some (recs ! j))"
  using assms
proof (induction jds arbitrary: i0 recs qs j best_score best_data)
  case Nil
  then show ?case by simp
next
  case (Cons jd jds)
  from Cons.prems(1,2) obtain r recs' q qs' where
    recs: "recs = r # recs'" and qs: "qs = q # qs'"
    and len: "length recs' = length jds" "length qs' = length jds"
    by (cases recs; cases qs) auto
  from Cons.prems(3)[rule_format, of 0] recs
  have s0: "score_resume run (ps i0) resume_text jd oai_key gem_key = Inr r" by simp
  from Cons.prems(4)[rule_format, of 0] recs qs
  have a0: "ats_of r = Inr q" by (simp add: ats_of_num)
  have sc: "\<forall>i<length jds. score_resume run (ps (Suc i0 + i)) resume_text (jds ! i) oai_key gem_key
              = Inr (recs' ! i)"
    using Cons.prems(3) recs by (auto dest: spec[of _ "Suc _"])
  have at: "\<forall>i<length jds. dict_get (recs' ! i) ''ATS Score'' = Some (JNum (qs' ! i))"
    using Cons.prems(4) recs qs by (auto dest: spec[of _ "Suc _"])
  show ?case
  proof (cases j)
    case 0
    have bd: "\<forall>i<length jds. qs' ! i \<le> q"
      using Cons.prems(6) qs 0 by (auto dest: spec[of _ "Suc _"])
    from Cons.prems(8) 0 qs have lt: "best_score < q" by simp
    from jd_loop_keep[OF len sc at bd, of "Some r"] s0 a0 lt 0 recs qs
    show ?thesis by simp
  next
    case (Suc j')
    have j': "j' < length jds" using Cons.prems(5) Suc by simp
    have mx: "\<forall>i<length jds. qs' ! i \<le> qs' ! j'"
      using Cons.prems(6) qs Suc by (auto dest: spec[of _ "Suc _"])
    have fst: "\<forall>i<j'. qs' ! i < qs' ! j'"
      using Cons.prems(7) qs Suc by (auto dest: spec[of _ "Suc _"])
    have q_lt: "q < qs' ! j'"
      using Cons.prems(7)[rule_format, of 0] qs Suc by simp
    have b_lt: "best_score < qs' ! j'"
      using Cons.prems(8) qs Suc by simp
    have res: "qs ! j = qs' ! j'" "recs ! j = recs' ! j'"
      using qs recs Suc by simp_all
    show ?thesis
    proof (cases "best_score < q")
      case True
      from Cons.IH[OF len sc at j' mx fst q_lt, of "Some r"] s0 a0 True res
      show ?thesis by simp
    next
      case False
      from Cons.IH[OF len sc at j' mx fst b_lt, of best_data] s0 a0 False res
      show ?thesis by simp
    qed
  qed
qed

text \<open>An exception of any call of the scorer ends the pass with that exception.\<close>

lemma jd_loop_error:
  assumes "k < length jds"
    and "\<forall>i<k. \<exists>d. score_resume run (ps (i0 + i)) resume_text (jds ! i) oai_key gem_key = Inr d"
    and "score_resume run (ps (i0 + k)) resume_text (jds ! k) oai_key gem_key = Inl e"
  shows "jd_loop run ps resume_text oai_key gem_key i0 jds best_score best_data = Inl e"
  using assms
proof (induction jds arbitrary: i0 k best_score best_data)
  case Nil
  then show ?case by simp
next
  case (Cons jd jds)
  show ?case
  proof (cases k)
    case 0
    with Cons.prems(3) show ?thesis by simp
  next
    case (Suc k')
    from Cons.prems(2)[rule_format, of 0] Suc obtain d where
      s0: "score_resume run (ps i0) resume_text jd oai_key gem_key = Inr d" by auto
    from score_resume_ats[OF s0] obtain q where a0: "ats_of d = Inr q"
      by (auto simp: ats_of_num)
    have k': "k' < length jds" using Cons.prems(1) Suc by simp
    have pre: "\<forall>i<k'. \<exists>d. score_resume run (ps (Suc i0 + i)) resume_text (jds ! i) oai_key gem_key
                 = Inr d"
      using Cons.prems(2) Suc by (auto dest: spec[of _ "Suc _"])
    have err: "score_resume run (ps (Suc i0 + k')) resume_text (jds ! k') oai_key gem_key = Inl e"
      using Cons.prems(3) Suc by simp
    from Cons.IH[OF k' pre err] s0 a0 show ?thesis by simp
  qed
qed

text \<open>
  Claim C7, as amended. When the number of job descriptions is not one, and scoring the
  resume against each of them returns a record: if the greatest ATS Score exceeds \<open>-1\<close>
  (as every score in the documented range \<open>[0, 100]\<close> does), the resolver returns the
  record of the first job description that reaches it (strictly higher than all before
  it, at least as high as all after it), with Matched JD set to the Target Job Role of
  that record. Every record has that field: it is the target role that the LLM gave, the
  empty string when the LLM result has none, and \<open>Not Found\<close> in a record scored by
  keywords only; so Matched JD is never the default \<open>N/A\<close>. Every job description is
  scored: an exception raised by the scorer for any of them, also one after the best,
  is the outcome of the resolver.
\<close>

theorem resolver_picks_best:
  "(length jds \<noteq> 1 \<and> length recs = length jds \<and> length qs = length jds
      \<and> (\<forall>i<length jds. score_resume run (ps i) resume_text (jds ! i) oai_key gem_key
             = Inr (recs ! i))
      \<and> (\<forall>i<length jds. dict_get (recs ! i) ''ATS Score'' = Some (JNum (qs ! i)))
      \<and> j < length jds \<and> (\<forall>i<length jds. qs ! i \<le> qs ! j) \<and> (\<forall>i<j. qs ! i < qs ! j)
      \<and> - 1 < qs ! j \<longrightarrow>
      (\<exists>role. dict_get (recs ! j) ''Target Job Role'' = Some role
         \<and> role = (case fst (llm_score (ps j) oai_key gem_key) of
                      None \<Rightarrow> JStr ''Not Found''
                    | Some r \<Rightarrow> get_default r ''target_job_role'' (JStr ''''))
         \<and> score_against_all_jds run ps resume_text jds oai_key gem_key
             = Inr (dict_set ''Matched JD'' role (recs ! j))))
   \<and> (length jds \<noteq> 1 \<and> k < length jds
      \<and> (\<forall>i<k. \<exists>d. score_resume run (ps i) resume_text (jds ! i) oai_key gem_key = Inr d)
      \<and> score_resume run (ps k) resume_text (jds ! k) oai_key gem_key = Inl e \<longrightarrow>
      score_against_all_jds run ps resume_text jds oai_key gem_key = Inl e)
   \<and> (score_resume run pv resume_text jd_text oai_key gem_key = Inr d \<longrightarrow>
      dict_get d ''Target Job Role''
        = Some (case fst (llm_score pv oai_key gem_key) of
                  None \<Rightarrow> JStr ''Not Found''
                | Some r \<Rightarrow> get_default r ''target_job_role'' (JStr [])))"
proof -
  let ?role = "case fst (llm_score (ps j) oai_key gem_key) of
                 None \<Rightarrow> JStr ''Not Found''
               | Some r \<Rightarrow> get_default r ''target_job_role'' (JStr '''')"
  have best: "dict_get (recs ! j) ''Target Job Role'' = Some ?role
      \<and> score_against_all_jds run ps resume_text jds oai_key gem_key
           = Inr (dict_set ''Matched JD'' ?role (recs ! j))"
    if n: "length jds \<noteq> 1" and len: "length recs = length jds" "length qs = length jds"
      and sc: "\<forall>i<length jds. score_resume run (ps i) resume_text (jds ! i) oai_key gem_key
             = Inr (recs ! i)"
      and at: "\<forall>i<length jds. dict_get (recs ! i) ''ATS Score'' = Some (JNum (qs ! i))"
      and j: "j < length jds" "\<forall>i<length jds. qs ! i \<le> qs ! j" "\<forall>i<j. qs ! i < qs ! j"
      and gt: "- 1 < qs ! j"
  proof -
    have sc0: "\<forall>i<length jds. score_resume run (ps (0 + i)) resume_text (jds ! i) oai_key gem_key
             = Inr (recs ! i)"
      using sc by simp
    from sc j(1) have "score_resume run (ps j) resume_text (jds ! j) oai_key gem_key
             = Inr (recs ! j)"
      by blast
    from score_resume_target_role[OF this]
    have role: "dict_get (recs ! j) ''Target Job Role'' = Some ?role" .
    then have gd: "get_default (recs ! j) ''Target Job Role'' (JStr ''N/A'') = ?role"
      by (simp add: get_default_def)
    from jd_loop_winner[OF len sc0 at j gt, of None] n
    have "score_against_all_jds run ps resume_text jds oai_key gem_key
           = Inr (dict_set ''Matched JD''
                    (get_default (recs ! j) ''Target Job Role'' (JStr ''N/A'')) (recs ! j))"
      by (simp add: score_against_all_jds_def)
    with role gd show ?thesis by simp
  qed
  have err: "score_against_all_jds run ps resume_text jds oai_key gem_key = Inl e"
    if n: "length jds \<noteq> 1" and k: "k < length jds"
      and pre: "\<forall>i<k. \<exists>d. score_resume run (ps i) resume_text (jds ! i) oai_key gem_key = Inr d"
      and e: "score_resume run (ps k) resume_text (jds ! k) oai_key gem_key = Inl e"
  proof -
    have pre0: "\<forall>i<k. \<exists>d. score_resume run (ps (0 + i)) resume_text (jds ! i) oai_key gem_key
                  = Inr d"
      using pre by simp
    have e0: "score_resume run (ps (0 + k)) resume_text (jds ! k) oai_key gem_key = Inl e"
      using e by simp
    from jd_loop_error[OF k pre0 e0, of "- 1" None] n show ?thesis
      by (simp add: score_against_all_jds_def)
  qed
  have every: "dict_get d ''Target Job Role''
        = Some (case fst (llm_score pv oai_key gem_key) of
                  None \<Rightarrow> JStr ''Not Found''
                | Some r \<Rightarrow> get_default r ''target_job_role'' (JStr []))"
    if "score_resume run pv resume_text jd_text oai_key gem_key = Inr d"
    using that by (rule score_resume_target_role)
  from best err every show ?thesis by blast
qed

text \<open>
  The theorem at three job descriptions for which the LLM returns the overall scores 40,
  85 and 60 (ATS Scores 28, 59.5 and 42): the record of the second is returned. And at
  three job descriptions the last of which makes the scorer raise: the resolver raises.
\<close>

theorem resolver_picks_best_witness:
  "(case score_against_all_jds
           \<lparr>tfidf_cosine = (\<lambda>_ _. Some 0), repr = (\<lambda>_. []), builtin_text = (\<lambda>_. [])\<rparr>
           (\<lambda>i. \<lparr>openai = (\<lambda>_. Replies [(''overall_score'', JNum ([40, 85, 60] ! i)),
                                         (''target_job_role'', JStr ([''A'', ''B'', ''C''] ! i))]),
                 gemini = (\<lambda>_. Raises [])\<rparr>)
           [] [''a'', ''b'', ''c''] ''sk'' [] of
      Inl e \<Rightarrow> None
    | Inr d \<Rightarrow> Some (dict_get d ''ATS Score'', dict_get d ''Target Job Role'',
                     dict_get d ''Matched JD''))
     = Some (Some (JNum (119 / 2)), Some (JStr ''B''), Some (JStr ''B''))
   \<and> score_against_all_jds
        \<lparr>tfidf_cosine = (\<lambda>_ _. Some 0), repr = (\<lambda>_. []), builtin_text = (\<lambda>_. [])\<rparr>
        (\<lambda>i. \<lparr>openai = (\<lambda>_. Replies [(''overall_score'',
                                        [JNum 40, JNum 85, JStr ''sixty''] ! i)]),
              gemini = (\<lambda>_. Raises [])\<rparr>)
        [] [''a'', ''b'', ''c''] ''sk'' [] = Inl TypeError"
proof -
  let ?run = "\<lparr>tfidf_cosine = (\<lambda>_ _. Some (0::rat)), repr = (\<lambda>_. []), builtin_text = (\<lambda>_. [])\<rparr>"
  let ?ps = "\<lambda>i. \<lparr>openai = (\<lambda>_. Replies [(''overall_score'', JNum ([40, 85, 60] ! i)),
                                         (''target_job_role'', JStr ([''A'', ''B'', ''C''] ! i))]),
                 gemini = (\<lambda>_. Raises [])\<rparr>"
  let ?rec = "\<lambda>q role.
     [(''ATS Score'', JNum q), (''Phone Number'', JStr ''Not Found''),
      (''Email'', JStr ''Not Found''), (''Photo Link'', JStr ''Not Found''),
      (''Resume Summary'', JStr []), (''Missing Requirements'', JStr []),
      (''Job Description Summary'', JStr []), (''Target Job Role'', JStr role),
      (''Best Fit Role'', JStr []), (''Recommendation'', JStr ''Maybe''),
      (''Status'', JStr ''GPT''), (''Candidate Name Extracted'', JStr [])]"
  let ?recs = "[?rec 28 ''A'', ?rec (119 / 2) ''B'', ?rec 42 ''C'']"
  let ?jds = "[''a'', ''b'', ''c'']"
  have s0: "score_resume ?run (?ps 0) [] ''a'' ''sk'' [] = Inr (?rec 28 ''A'')" by code_simp
  have s1: "score_resume ?run (?ps 1) [] ''b'' ''sk'' [] = Inr (?rec (119 / 2) ''B'')"
    by code_simp
  have s2: "score_resume ?run (?ps 2) [] ''c'' ''sk'' [] = Inr (?rec 42 ''C'')" by code_simp
  have sc: "\<forall>i<length ?jds. score_resume ?run (?ps i) [] (?jds ! i) ''sk'' [] = Inr (?recs ! i)"
    using s0 s1 s2 by (simp add: less_Suc_eq numeral_2_eq_2)
  have at: "\<forall>i<length ?jds. dict_get (?recs ! i) ''ATS Score''
              = Some (JNum ([28, 119 / 2, 42] ! i))"
    by (simp add: less_Suc_eq dict_get_def)
  have mx: "\<forall>i<length ?jds. [28, 119 / 2, 42 :: rat] ! i \<le> [28, 119 / 2, 42] ! 1"
    by (simp add: less_Suc_eq)
  have fs: "\<forall>i<1. [28, 119 / 2, 42 :: rat] ! i < [28, 119 / 2, 42] ! 1"
    by simp
  note T = resolver_picks_best[of ?jds ?recs "[28, 119 / 2, 42]" ?run ?ps "[]" "''sk''" "[]" 1]
  from T sc at mx fs obtain role where
    role: "dict_get (?rec (119 / 2) ''B'') ''Target Job Role'' = Some role"
    and res: "score_against_all_jds ?run ?ps [] ?jds ''sk'' []
      = Inr (dict_set ''Matched JD'' role (?rec (119 / 2) ''B''))"
    by auto
  from role have "role = JStr ''B''" by (simp add: dict_get_def)
  with res have win: "score_against_all_jds ?run ?ps [] ?jds ''sk'' []
      = Inr (dict_set ''Matched JD'' (JStr ''B'') (?rec (119 / 2) ''B''))"
    by simp
  let ?pb = "\<lambda>i. \<lparr>openai = (\<lambda>_. Replies [(''overall_score'',
                                        [JNum 40, JNum 85, JStr ''sixty''] ! i)]),
              gemini = (\<lambda>_. Raises [])\<rparr>"
  have b0: "\<exists>d. score_resume ?run (?pb 0) [] ''a'' ''sk'' [] = Inr d"
    by (simp add: score_resume_def llm_score_def attempts_success
          llm_record_def to_float_def FLOAT_LIMIT_def get_default_def dict_get_def Let_def)
  have b1: "\<exists>d. score_resume ?run (?pb 1) [] ''b'' ''sk'' [] = Inr d"
    by (simp add: score_resume_def llm_score_def attempts_success
          llm_record_def to_float_def FLOAT_LIMIT_def get_default_def dict_get_def Let_def)
  have b2: "score_resume ?run (?pb 2) [] ''c'' ''sk'' [] = Inl TypeError"
    by (simp add: score_resume_def llm_score_def attempts_success
          llm_record_def to_float_def get_default_def dict_get_def Let_def)
  have pre: "\<forall>i<2. \<exists>d. score_resume ?run (?pb i) [] (?jds ! i) ''sk'' [] = Inr d"
    using b0 b1 by (simp add: less_Suc_eq numeral_2_eq_2)
  note E = resolver_picks_best[of ?jds _ _ ?run ?pb "[]" "''sk''" "[]" _ 2 TypeError]
  from E pre b2
  have err: "score_against_all_jds ?run ?pb [] ?jds ''sk'' [] = Inl TypeError"
    by simp
  show ?thesis
    unfolding win err by (simp add: dict_get_def get_default_def)
qed

text \<open>
  The claim as stated fails: Matched JD is not \<open>N/A\<close> when the role is unknown. For two
  job descriptions and LLM results with the overall scores 40 and 85 and no target role,
  the record with the ATS Score 59.5 is returned with the empty string as its Target Job
  Role and its Matched JD; and with no provider configured, the records are scored by
  keywords only and the one returned has \<open>Not Found\<close> as its Target Job Role and its
  Matched JD.
\<close>

theorem resolver_unknown_role_counterexample:
  "(case score_against_all_jds
           \<lparr>tfidf_cosine = (\<lambda>_ _. Some 0), repr = (\<lambda>_. []), builtin_text = (\<lambda>_. [])\<rparr>
           (\<lambda>i. \<lparr>openai = (\<lambda>_. Replies [(''overall_score'', JNum ([40, 85] ! i))]),
                 gemini = (\<lambda>_. Raises [])\<rparr>)
           [] [''a'', ''b''] ''sk'' [] of
      Inl e \<Rightarrow> None
    | Inr d \<Rightarrow> Some (dict_get d ''ATS Score'', dict_get d ''Target Job Role'',
                     dict_get d ''Matched JD''))
     = Some (Some (JNum (119 / 2)), Some (JStr []), Some (JStr []))
   \<and> (case score_against_all_jds
           \<lparr>tfidf_cosine = (\<lambda>_ _. Some (1 / 2)), repr = (\<lambda>_. []), builtin_text = (\<lambda>_. [])\<rparr>
           (\<lambda>i. \<lparr>openai = (\<lambda>_. Raises []), gemini = (\<lambda>_. Raises [])\<rparr>)
           ''Python and Java'' [''python java ruby'', ''ruby''] [] [] of
      Inl e \<Rightarrow> None
    | Inr d \<Rightarrow> Some (dict_get d ''ATS Score'', dict_get d ''Target Job Role'',
                     dict_get d ''Matched JD''))
     = Some (Some (JNum 50), Some (JStr ''Not Found''), Some (JStr ''Not Found''))
   \<and> JStr [] \<noteq> JStr ''N/A'' \<and> JStr ''Not Found'' \<noteq> JStr ''N/A''"
  by code_simp

text \<open>
  Outside the amended claim, when no ATS Score exceeds the initial best score \<open>-1\<close>:
  the LLM returns the overall scores \<open>-50\<close> and \<open>-10\<close> for two job descriptions, the
  ATS Scores are \<open>-35\<close> and \<open>-7\<close>, and the resolver returns a fresh scoring of the first
  job description, not the record with the highest score that its docstring announces
  (\<^verbatim>\<open>Returns the score_data for the BEST matching JD\<close>).
\<close>

lemma resolver_negative_scores:
  "(case score_resume
           \<lparr>tfidf_cosine = (\<lambda>_ _. Some 0), repr = (\<lambda>_. []), builtin_text = (\<lambda>_. [])\<rparr>
           \<lparr>openai = (\<lambda>_. Replies [(''overall_score'', JNum (- 50)),
                                   (''target_job_role'', JStr ''A'')]),
            gemini = (\<lambda>_. Raises [])\<rparr>
           [] ''a'' ''sk'' [] of
      Inl e \<Rightarrow> None | Inr d \<Rightarrow> dict_get d ''ATS Score'') = Some (JNum (- 35))
   \<and> (case score_resume
           \<lparr>tfidf_cosine = (\<lambda>_ _. Some 0), repr = (\<lambda>_. []), builtin_text = (\<lambda>_. [])\<rparr>
           \<lparr>openai = (\<lambda>_. Replies [(''overall_score'', JNum (- 10)),
                                   (''target_job_role'', JStr ''B'')]),
            gemini = (\<lambda>_. Raises [])\<rparr>
           [] ''b'' ''sk'' [] of
      Inl e \<Rightarrow> None | Inr d \<Rightarrow> dict_get d ''ATS Score'') = Some (JNum (- 7))
   \<and> (case score_against_all_jds
           \<lparr>tfidf_cosine = (\<lambda>_ _. Some 0), repr = (\<lambda>_. []), builtin_text = (\<lambda>_. [])\<rparr>
           (\<lambda>i. \<lparr>openai = (\<lambda>_. Replies
                      (if i = 1 then [(''overall_score'', JNum (- 10)),
                                      (''target_job_role'', JStr ''B'')]
                       else [(''overall_score'', JNum (- 50)),
                             (''target_job_role'', JStr ''A'')])),
                 gemini = (\<lambda>_. Raises [])\<rparr>)
           [] [''a'', ''b''] ''sk'' [] of
      Inl e \<Rightarrow> None
    | Inr d \<Rightarrow> Some (dict_get d ''ATS Score'', dict_get d ''Matched JD''))
     = Some (Some (JNum (- 35)), Some (JStr ''A''))
   \<and> (- 35 :: rat) < - 7"
  by code_simp

section \<open>Properties of the Batch Orchestrator\<close>


lemma dict_get_filter:
  "dict_get (filter (\<lambda>e. fst e \<noteq> k) d) k' = (if k' = k then None else dict_get d k')"
  unfolding dict_get_def by (induction d) auto

lemma dict_get_pop:
  "dict_get (snd (dict_pop d k dflt)) k' = (if k' = k then None else dict_get d k')"
  by (auto simp: dict_pop_def dict_get_filter split: option.splits)

text \<open>The keys and the status of every record that the scorer returns.\<close>

lemma score_resume_record:
  assumes "score_resume run pv resume_text jd_text openai_key gemini_key = Inr d"
  shows "distinct (map fst d)
       \<and> ''Candidate Name'' \<notin> fst ` set d \<and> ''Resume Link'' \<notin> fst ` set d
       \<and> ''_ok'' \<notin> fst ` set d
       \<and> dict_get d ''Status''
            \<in> {Some (JStr ''GPT''), Some (JStr ''Gemini''), Some (JStr ''Keyword'')}"
proof -
  let ?kw = "keyword_score (tfidf_cosine run) resume_text jd_text"
  have kw: "distinct (map fst (keyword_record ?kw))
       \<and> ''Candidate Name'' \<notin> fst ` set (keyword_record ?kw)
       \<and> ''Resume Link'' \<notin> fst ` set (keyword_record ?kw)
       \<and> ''_ok'' \<notin> fst ` set (keyword_record ?kw)
       \<and> dict_get (keyword_record ?kw) ''Status''
            \<in> {Some (JStr ''GPT''), Some (JStr ''Gemini''), Some (JStr ''Keyword'')}"
    by (simp add: keyword_record_eq dict_get_def)
  show ?thesis
  proof (cases "fst (llm_score pv openai_key gemini_key)")
    case None
    with assms have "d = keyword_record ?kw" by (simp add: score_resume_def Let_def)
    with kw show ?thesis by simp
  next
    case (Some r)
    from llm_score_Some[OF Some] obtain p a where
      ne: "r \<noteq> []" and tag: "dict_get r ''llm_provider'' = Some (JStr (provider_name p))"
      by blast
    from assms Some ne have R: "llm_record run ?kw r = Inr d"
      by (simp add: score_resume_def Let_def)
    from llm_record_Inr_D[OF R] obtain L mr where
      num: "to_number (get_default r ''overall_score'' (JNum 0)) = Inr L"
      and lim: "\<bar>L\<bar> < FLOAT_LIMIT"
      and jn: "join_json (get_default r ''missing_requirements'' (JArr [])) = Inr mr"
      by blast
    have st: "get_default r ''llm_provider'' (JStr ''GPT'') = JStr (provider_name p)"
      using tag by (simp add: get_default_def)
    from llm_record_eq[OF num lim jn, of run ?kw] R st show ?thesis
      by (cases p) (auto simp: dict_get_def)
  qed
qed

lemma jd_loop_Some:
  assumes "jd_loop run ps resume_text oai_key gem_key i0 jds best_score best_data
             = Inr (b, Some d)"
  shows "best_data = Some d
       \<or> (\<exists>pv jd. score_resume run pv resume_text jd oai_key gem_key = Inr d)"
  using assms
proof (induction jds arbitrary: i0 best_score best_data)
  case Nil
  then show ?case by simp
next
  case (Cons jd jds)
  from Cons.prems obtain sd q where
    s: "score_resume run (ps i0) resume_text jd oai_key gem_key = Inr sd"
    and a: "ats_of sd = Inr q"
    by (auto split: sum.splits)
  show ?case
  proof (cases "best_score < q")
    case True
    with Cons.prems s a
    have "jd_loop run ps resume_text oai_key gem_key (i0 + 1) jds q (Some sd) = Inr (b, Some d)"
      by simp
    from Cons.IH[OF this] s show ?thesis by auto
  next
    case False
    with Cons.prems s a
    have "jd_loop run ps resume_text oai_key gem_key (i0 + 1) jds best_score best_data
            = Inr (b, Some d)"
      by simp
    from Cons.IH[OF this] show ?thesis .
  qed
qed

text \<open>What the resolver returns is a record of the scorer with its Matched JD label.\<close>

lemma score_against_all_jds_record:
  assumes "score_against_all_jds run ps resume_text jds oai_key gem_key = Inr sd"
  shows "\<exists>pv jd d v. score_resume run pv resume_text jd oai_key gem_key = Inr d
           \<and> sd = dict_set ''Matched JD'' v d"
proof (cases "length jds = 1")
  case True
  with assms show ?thesis
    by (auto simp: score_against_all_jds_def split: sum.splits)
next
  case False
  with assms obtain b bd where
    L: "jd_loop run ps resume_text oai_key gem_key 0 jds (- 1) None = Inr (b, bd)"
    by (auto simp: score_against_all_jds_def split: sum.splits)
  show ?thesis
  proof (cases bd)
    case None
    with assms False L show ?thesis
      by (auto simp: score_against_all_jds_def split: sum.splits list.splits)
  next
    case (Some d)
    with jd_loop_Some[of run ps resume_text oai_key gem_key 0 jds "- 1" None b d] L
    obtain pv jd where "score_resume run pv resume_text jd oai_key gem_key = Inr d"
      by auto
    moreover from assms False L Some
    have "sd = dict_set ''Matched JD'' (get_default d ''Target Job Role'' (JStr ''N/A'')) d"
      by (simp add: score_against_all_jds_def)
    ultimately show ?thesis by blast
  qed
qed

lemma fst_set_dict_set: "fst ` set (dict_set k v d) = insert k (fst ` set d)"
  by (simp add: dom_map_of_conv_image_fst[symmetric] map_of_dict_set)

lemma distinct_dict_set: "distinct (map fst d) \<Longrightarrow> distinct (map fst (dict_set k v d))"
proof (induction d)
  case Nil
  then show ?case by simp
next
  case (Cons e d)
  have "set (map fst (dict_set k v d)) = insert k (set (map fst d))"
    using fst_set_dict_set[of k v d] by simp
  with Cons show ?case by (cases e) auto
qed

text \<open>The record that a worker returns when nothing fails.\<close>

lemma process_body_fields:
  assumes "process_body run env name url jds oai_key gem_key = Inr result"
  shows "\<exists>sd. result = [(''Candidate Name'', JStr name), (''Resume Link'', JStr url)]
                  @ sd @ [(''_ok'', JBool True)]
           \<and> ''Candidate Name'' \<notin> fst ` set sd \<and> ''_ok'' \<notin> fst ` set sd
           \<and> dict_get sd ''Status''
                \<in> {Some (JStr ''GPT''), Some (JStr ''Gemini''), Some (JStr ''Keyword'')}"
proof -
  from assms obtain resume_text sd where
    sd: "score_against_all_jds run (provider_calls env) resume_text jds oai_key gem_key = Inr sd"
    and res: "result = dict_of ([(''Candidate Name'', JStr name), (''Resume Link'', JStr url)]
                @ sd @ [(''_ok'', JBool True)])"
    by (auto simp: process_body_def split: sum.splits list.splits if_splits option.splits)
  from score_against_all_jds_record[OF sd] obtain pv jd d v where
    d: "score_resume run pv resume_text jd oai_key gem_key = Inr d"
    and sdd: "sd = dict_set ''Matched JD'' v d"
    by blast
  note F = score_resume_record[OF d]
  have keys: "''Candidate Name'' \<notin> fst ` set sd" "''Resume Link'' \<notin> fst ` set sd"
    "''_ok'' \<notin> fst ` set sd"
    using F by (simp_all add: sdd fst_set_dict_set)
  have dis: "distinct (map fst sd)"
    using F by (simp add: sdd distinct_dict_set)
  have st: "dict_get sd ''Status'' = dict_get d ''Status''"
    by (simp add: sdd dict_get_dict_set)
  have "distinct (map fst ([(''Candidate Name'', JStr name), (''Resume Link'', JStr url)]
                @ sd @ [(''_ok'', JBool True)]))"
    using keys dis by auto
  then have "result = [(''Candidate Name'', JStr name), (''Resume Link'', JStr url)]
                @ sd @ [(''_ok'', JBool True)]"
    unfolding res by (rule dict_of_distinct)
  with keys st F show ?thesis by auto
qed

lemma failed_record_eq:
  "failed_record run name url e =
       [(''Candidate Name'', JStr name),
        (''Resume Link'', JStr url),
        (''ATS Score'', JNum 0),
        (''Status'', JStr ''Failed''),
        (''Phone Number'', JStr ''Error''),
        (''Email'', JStr ''Error''),
        (''Photo Link'', JStr ''Error''),
        (''Resume Summary'', JStr (''Failed: '' @ str_exc run e)),
        (''Missing Requirements'', JStr ''Error''),
        (''Job Description Summary'', JStr ''Error''),
        (''Target Job Role'', JStr ''Error''),
        (''Best Fit Role'', JStr ''Error''),
        (''Matched JD'', JStr ''Error''),
        (''Recommendation'', JStr ''No''),
        (''_ok'', JBool False)]"
  unfolding failed_record_def by (rule dict_of_distinct) simp

text \<open>Every worker returns a record that carries the name of its candidate.\<close>

lemma worker_candidate_name:
  "dict_get (process_one_candidate run env name url jds oai_key gem_key) ''Candidate Name''
     = Some (JStr name)"
proof (cases "process_body run env name url jds oai_key gem_key")
  case (Inl e)
  then show ?thesis
    by (simp add: process_one_candidate_def failed_record_eq dict_get_def)
next
  case (Inr result)
  from process_body_fields[OF Inr] Inr show ?thesis
    by (auto simp: process_one_candidate_def dict_get_def)
qed

lemma finalize_candidate_name:
  "dict_get (snd (finalize_result photo result)) ''Candidate Name''
     = dict_get result ''Candidate Name''"
  by (simp add: finalize_result_def Let_def dict_get_dict_set dict_get_pop)


lemma fold_fill_length:
  "length (fold (\<lambda>i s. s[i := g i]) order s) = length s"
  by (induction order arbitrary: s) auto

lemma fold_fill_nth:
  "i < length s \<Longrightarrow>
     fold (\<lambda>i s. s[i := g i]) order s ! i = (if i \<in> set order then g i else s ! i)"
proof (induction order arbitrary: s)
  case Nil
  then show ?case by simp
next
  case (Cons j order)
  then show ?case by (auto simp: nth_list_update)
qed

lemma map_filter_Some: "List.map_filter (\<lambda>s. s) (map Some xs) = xs"
  by (induction xs) (auto simp: List.map_filter_simps)

lemma set_completion_order: "set (completion_order f n) = {0..<n}"
  by (simp add: completion_order_def)

text \<open>The results of a batch come back in the order of its workers, whatever the order
  in which they complete.\<close>

lemma gather_input_order: "gather f futures = futures"
proof -
  let ?n = "length futures"
  let ?slots = "fold (\<lambda>i s. s[i := nth_opt futures i]) (completion_order f ?n)
                  (replicate ?n None)"
  have "?slots = map Some futures"
  proof (rule nth_equalityI)
    show "length ?slots = length (map Some futures)"
      by (simp add: fold_fill_length)
  next
    fix i assume "i < length ?slots"
    then have i: "i < ?n" by (simp add: fold_fill_length)
    then show "?slots ! i = map Some futures ! i"
      by (simp add: fold_fill_nth set_completion_order nth_opt_def)
  qed
  then show ?thesis
    by (simp add: gather_def Let_def map_filter_Some)
qed

lemma map_upt_shift: "map F [0..<Suc n] = F 0 # map (\<lambda>k. F (Suc k)) [0..<n]"
  by (simp add: map_upt_Suc del: upt_Suc)

lemma emit_progress_shape:
  "emit_progress tot batch st =
     st\<lparr>completed := completed st + length batch,
        events := events st @
          map (\<lambda>k. Progress (completed st + k + 1) tot (fst (batch ! k))) [0..<length batch]\<rparr>"
proof (induction batch arbitrary: st)
  case Nil
  then show ?case by simp
next
  case (Cons c batch)
  obtain name url photo where c: "c = (name, url, photo)" by (cases c) auto
  let ?F = "\<lambda>k. Progress (completed st + k + 1) tot (fst ((c # batch) ! k))"
  have sh: "map ?F [0..<length (c # batch)] = ?F 0 # map (\<lambda>k. ?F (Suc k)) [0..<length batch]"
    using map_upt_shift[of ?F "length batch"] by simp
  show ?case
    unfolding sh by (simp add: c Cons.IH)
qed


lemma emit_results_shape:
  assumes "i + length rs \<le> length batch"
    and "\<forall>k<length rs. dict_get (rs ! k) ''Candidate Name'' = Some (c (i + k))"
  shows "emit_results tot batch i rs st =
     Inr (st\<lparr>results := results st @
                map (\<lambda>k. snd (finalize_result (snd (snd (batch ! (i + k)))) (rs ! k)))
                  [0..<length rs],
             events := events st @
                map (\<lambda>k. Result (length (results st) + k + 1) tot (c (i + k))
                       (get_default (snd (finalize_result (snd (snd (batch ! (i + k)))) (rs ! k)))
                          ''ATS Score'' (JNum 0))
                       (if truthy (fst (finalize_result (snd (snd (batch ! (i + k)))) (rs ! k)))
                        then ''complete'' else ''failed'')
                       (snd (finalize_result (snd (snd (batch ! (i + k)))) (rs ! k))))
                  [0..<length rs]\<rparr>)"
  using assms
proof (induction rs arbitrary: i st)
  case Nil
  then show ?case by simp
next
  case (Cons r rs)
  let ?fin = "\<lambda>i k rs. finalize_result (snd (snd (batch ! (i + k)))) (rs ! k)"
  let ?R = "\<lambda>i rs k. snd (?fin i k rs)"
  let ?E = "\<lambda>i rs n k. Result (n + k + 1) tot (c (i + k))
                       (get_default (snd (?fin i k rs)) ''ATS Score'' (JNum 0))
                       (if truthy (fst (?fin i k rs)) then ''complete'' else ''failed'')
                       (snd (?fin i k rs))"
  from Cons.prems(1) have i: "i < length batch" by simp
  obtain name url photo where b: "batch ! i = (name, url, photo)" by (cases "batch ! i") auto
  from Cons.prems(2)[rule_format, of 0] have cn: "dict_get r ''Candidate Name'' = Some (c i)"
    by simp
  let ?r2 = "snd (finalize_result photo r)"
  let ?st' = "st\<lparr>results := results st @ [?r2],
                 events := events st @
                   [Result (length (results st @ [?r2])) tot (c i)
                      (get_default ?r2 ''ATS Score'' (JNum 0))
                      (if truthy (fst (finalize_result photo r)) then ''complete'' else ''failed'')
                      ?r2]\<rparr>"
  have step: "emit_results tot batch i (r # rs) st = emit_results tot batch (i + 1) rs ?st'"
    using i b cn by (simp add: nth_opt_def Let_def finalize_candidate_name)
  have len: "i + 1 + length rs \<le> length batch" using Cons.prems(1) by simp
  have names: "\<forall>k<length rs. dict_get (rs ! k) ''Candidate Name'' = Some (c (i + 1 + k))"
    using Cons.prems(2) by (auto dest: spec[of _ "Suc _"])
  have shR: "map (?R i (r # rs)) [0..<length (r # rs)]
               = ?r2 # map (?R (i + 1) rs) [0..<length rs]"
    using map_upt_shift[of "?R i (r # rs)" "length rs"] b by simp
  have shE: "map (?E i (r # rs) (length (results st))) [0..<length (r # rs)]
               = ?E i (r # rs) (length (results st)) 0
                 # map (?E (i + 1) rs (length (results ?st'))) [0..<length rs]"
    using map_upt_shift[of "?E i (r # rs) (length (results st))" "length rs"] by simp
  show ?case
    unfolding step Cons.IH[OF len names] shR shE using b by simp
qed


lemma map_upt_add: "map (\<lambda>k. f (b + k)) [0..<m] = map f [b..<b + m]"
proof -
  have "map f [b..<b + m] = map f (map (\<lambda>k. k + b) [0..<m])"
    by (simp add: map_add_upt add.commute)
  then show ?thesis by (simp add: o_def add.commute)
qed

lemma process_batch_shape:
  assumes tot: "total rq = length (candidates rq)"
    and b: "b < total rq"
    and len: "length (results st) = b"
    and cmp: "completed st = b"
  shows "process_batch rq b st =
     Inr (st\<lparr>completed := b + min BATCH_SIZE (total rq - b),
             results := results st @
                map (final_result rq) [b..<b + min BATCH_SIZE (total rq - b)],
             events := events st
                @ map (progress_event rq) [b..<b + min BATCH_SIZE (total rq - b)]
                @ map (result_event rq) [b..<b + min BATCH_SIZE (total rq - b)]\<rparr>)"
proof -
  let ?m = "min BATCH_SIZE (total rq - b)"
  let ?batch = "take BATCH_SIZE (drop b (candidates rq))"
  let ?futures = "map (\<lambda>(i, (name, url, photo)).
                       process_one_candidate (rt rq) (envs rq (b + i)) name url
                         (jd_texts rq) (final_openai_key rq) (final_gemini_key rq))
                     (enumerate 0 ?batch)"
  have lb: "length ?batch = ?m" using tot by simp
  have nb: "?batch ! k = candidates rq ! (b + k)" if "k < ?m" for k
    using that tot b by simp
  have lf: "length ?futures = ?m" using lb by simp
  have nf: "?futures ! k = worker_result rq (b + k)" if "k < ?m" for k
  proof -
    have "?futures ! k = (\<lambda>(i, (name, url, photo)).
                       process_one_candidate (rt rq) (envs rq (b + i)) name url
                         (jd_texts rq) (final_openai_key rq) (final_gemini_key rq))
                     (k, ?batch ! k)"
      using that lb by (simp add: nth_enumerate_eq)
    then show ?thesis
      using nb[OF that] by (simp add: worker_result_def split: prod.splits)
  qed
  let ?st1 = "emit_progress (total rq) ?batch st"
  have st1: "?st1 = st\<lparr>completed := completed st + ?m,
        events := events st @
          map (\<lambda>k. Progress (completed st + k + 1) (total rq) (fst (?batch ! k))) [0..<?m]\<rparr>"
    using emit_progress_shape[of "total rq" ?batch st] lb by simp
  have prog: "map (\<lambda>k. Progress (completed st + k + 1) (total rq) (fst (?batch ! k))) [0..<?m]
                = map (progress_event rq) [b..<b + ?m]"
  proof -
    have "map (\<lambda>k. Progress (completed st + k + 1) (total rq) (fst (?batch ! k))) [0..<?m]
            = map (\<lambda>k. progress_event rq (b + k)) [0..<?m]"
      using nb cmp by (intro map_cong) (auto simp: progress_event_def)
    then show ?thesis by (simp add: map_upt_add)
  qed
  have names: "\<forall>k<length ?futures. dict_get (?futures ! k) ''Candidate Name''
                 = Some (JStr (fst (?batch ! (0 + k))))"
  proof (intro allI impI)
    fix k assume "k < length ?futures"
    then have k: "k < ?m" unfolding lf .
    obtain name url photo where c: "candidates rq ! (b + k) = (name, url, photo)"
      by (cases "candidates rq ! (b + k)") auto
    show "dict_get (?futures ! k) ''Candidate Name'' = Some (JStr (fst (?batch ! (0 + k))))"
      using nf[OF k] nb[OF k] c by (simp add: worker_result_def worker_candidate_name)
  qed
  have fit: "0 + length ?futures \<le> length ?batch" using lf lb by simp
  note ER = emit_results_shape[OF fit names, of "total rq" ?st1]
  have resl: "map (\<lambda>k. snd (finalize_result (snd (snd (?batch ! (0 + k)))) (?futures ! k)))
                 [0..<length ?futures]
                = map (final_result rq) [b..<b + ?m]"
  proof -
    have "map (\<lambda>k. snd (finalize_result (snd (snd (?batch ! (0 + k)))) (?futures ! k)))
                 [0..<length ?futures]
            = map (\<lambda>k. final_result rq (b + k)) [0..<?m]"
      unfolding lf using nb nf by (intro map_cong) (auto simp: final_result_def)
    then show ?thesis by (simp add: map_upt_add)
  qed
  have evl: "map (\<lambda>k. Result (length (results ?st1) + k + 1) (total rq)
                       (JStr (fst (?batch ! (0 + k))))
                       (get_default (snd (finalize_result (snd (snd (?batch ! (0 + k))))
                          (?futures ! k))) ''ATS Score'' (JNum 0))
                       (if truthy (fst (finalize_result (snd (snd (?batch ! (0 + k))))
                          (?futures ! k)))
                        then ''complete'' else ''failed'')
                       (snd (finalize_result (snd (snd (?batch ! (0 + k)))) (?futures ! k))))
                 [0..<length ?futures]
                = map (result_event rq) [b..<b + ?m]"
  proof -
    have lr: "length (results ?st1) = b" using st1 len by simp
    have "map (\<lambda>k. Result (length (results ?st1) + k + 1) (total rq)
                       (JStr (fst (?batch ! (0 + k))))
                       (get_default (snd (finalize_result (snd (snd (?batch ! (0 + k))))
                          (?futures ! k))) ''ATS Score'' (JNum 0))
                       (if truthy (fst (finalize_result (snd (snd (?batch ! (0 + k))))
                          (?futures ! k)))
                        then ''complete'' else ''failed'')
                       (snd (finalize_result (snd (snd (?batch ! (0 + k)))) (?futures ! k))))
                 [0..<length ?futures]
            = map (\<lambda>k. result_event rq (b + k)) [0..<?m]"
      unfolding lf lr using nb nf
      by (intro map_cong) (auto simp: result_event_def final_result_def)
    then show ?thesis by (simp add: map_upt_add)
  qed
  have "process_batch rq b st = emit_results (total rq) ?batch 0 ?futures ?st1"
    by (simp add: process_batch_def Let_def gather_input_order)
  also have "\<dots> = Inr (?st1\<lparr>results := results ?st1 @ map (final_result rq) [b..<b + ?m],
             events := events ?st1 @ map (result_event rq) [b..<b + ?m]\<rparr>)"
    unfolding ER resl evl ..
  finally show ?thesis
    unfolding st1 prog using cmp by simp
qed


lemma filter_result_progress [simp]:
  "filter is_result (map (progress_event rq) xs) = []"
  "filter is_result (map (result_event rq) xs) = map (result_event rq) xs"
  "filter is_progress (map (progress_event rq) xs) = map (progress_event rq) xs"
  "filter is_progress (map (result_event rq) xs) = []"
  by (induction xs) (simp_all add: progress_event_def result_event_def)

lemma batch_loop_shape:
  assumes "total rq = length (candidates rq)"
    and "b < total rq \<longrightarrow> length (results st) = b \<and> completed st = b"
  shows "\<exists>st'. batch_loop rq b st = Inr st'
         \<and> results st' = results st @ map (final_result rq) [b..<total rq]
         \<and> filter is_result (events st')
             = filter is_result (events st) @ map (result_event rq) [b..<total rq]
         \<and> filter is_progress (events st')
             = filter is_progress (events st) @ map (progress_event rq) [b..<total rq]"
  using assms
proof (induction rq b st rule: batch_loop.induct)
  case (1 rq b st)
  show ?case
  proof (cases "b < total rq")
    case False
    then show ?thesis by (subst batch_loop.simps) simp
  next
    case True
    let ?m = "min BATCH_SIZE (total rq - b)"
    let ?st1 = "st\<lparr>completed := b + ?m,
             results := results st @ map (final_result rq) [b..<b + ?m],
             events := events st @ map (progress_event rq) [b..<b + ?m]
                @ map (result_event rq) [b..<b + ?m]\<rparr>"
    from True "1.prems"(2) have inv: "length (results st) = b" "completed st = b" by simp_all
    have pb: "process_batch rq b st = Inr ?st1"
      using process_batch_shape[OF "1.prems"(1) True inv] .
    have mpos: "0 < ?m" using True by (simp add: BATCH_SIZE_def)
    have next_inv: "b + BATCH_SIZE < total rq \<longrightarrow>
        length (results ?st1) = b + BATCH_SIZE \<and> completed ?st1 = b + BATCH_SIZE"
      using inv by auto
    from "1.IH"[OF True pb "1.prems"(1) next_inv] obtain st' where
      L: "batch_loop rq (b + BATCH_SIZE) ?st1 = Inr st'"
      and R: "results st' = results ?st1 @ map (final_result rq) [b + BATCH_SIZE..<total rq]"
      and E: "filter is_result (events st')
                = filter is_result (events ?st1) @ map (result_event rq) [b + BATCH_SIZE..<total rq]"
      and P: "filter is_progress (events st')
                = filter is_progress (events ?st1)
                  @ map (progress_event rq) [b + BATCH_SIZE..<total rq]"
      by blast
    have split: "[b..<total rq] = [b..<b + ?m] @ [b + BATCH_SIZE..<total rq]"
    proof (cases "BATCH_SIZE \<le> total rq - b")
      case True
      then have "?m = BATCH_SIZE" by simp
      moreover have "[b..<total rq] = [b..<b + BATCH_SIZE] @ [b + BATCH_SIZE..<total rq]"
      proof -
        have "b + BATCH_SIZE + (total rq - (b + BATCH_SIZE)) = total rq"
          using True \<open>b < total rq\<close> by simp
        with upt_add_eq_append[of b "b + BATCH_SIZE" "total rq - (b + BATCH_SIZE)"]
        show ?thesis by simp
      qed
      ultimately show ?thesis by simp
    next
      case False
      then have "?m = total rq - b" "[b + BATCH_SIZE..<total rq] = []" by simp_all
      with \<open>b < total rq\<close> show ?thesis by simp
    qed
    have "batch_loop rq b st = Inr st'"
      using True pb L by (subst batch_loop.simps) simp
    moreover have "results st' = results st @ map (final_result rq) [b..<total rq]"
      unfolding R split by simp
    moreover have "filter is_result (events st')
             = filter is_result (events st) @ map (result_event rq) [b..<total rq]"
      unfolding E split by simp
    moreover have "filter is_progress (events st')
             = filter is_progress (events st) @ map (progress_event rq) [b..<total rq]"
      unfolding P split by simp
    ultimately show ?thesis by blast
  qed
qed

text \<open>
  The stream of a request never ends with an exception; its \<^verbatim>\<open>result\<close> events and the
  records of its \<^verbatim>\<open>done\<close> event are those of the candidates in the order of the input.
\<close>

lemma event_stream_shape:
  assumes "total rq = length (candidates rq)"
  shows "\<exists>evs. event_stream rq
             = Inr (evs @ [Done (total rq) (map (final_result rq) [0..<total rq])])
         \<and> filter is_result evs = map (result_event rq) [0..<total rq]
         \<and> filter is_progress evs = map (progress_event rq) [0..<total rq]"
proof -
  let ?st0 = "\<lparr>results = [], completed = 0, events = []\<rparr>"
  have "0 < total rq \<longrightarrow> length (results ?st0) = 0 \<and> completed ?st0 = 0" by simp
  from batch_loop_shape[OF assms this] obtain st' where
    "batch_loop rq 0 ?st0 = Inr st'"
    "results st' = map (final_result rq) [0..<total rq]"
    "filter is_result (events st') = map (result_event rq) [0..<total rq]"
    "filter is_progress (events st') = map (progress_event rq) [0..<total rq]"
    by auto
  then show ?thesis
    by (auto simp: event_stream_def intro!: exI[of _ "events st'"])
qed


lemma process_batch_finish:
  "process_batch (rq\<lparr>finish := f\<rparr>) b st = process_batch rq b st"
  by (simp add: process_batch_def Let_def gather_input_order)

lemma batch_loop_finish:
  "batch_loop (rq\<lparr>finish := f\<rparr>) b st = batch_loop rq b st"
proof (induction rq b st rule: batch_loop.induct)
  case (1 rq b st)
  note L = batch_loop.simps[of "rq\<lparr>finish := f\<rparr>" b st]
  note R = batch_loop.simps[of rq b st]
  show ?case
  proof (cases "b < total rq")
    case False
    then show ?thesis unfolding L R by simp
  next
    case True
    show ?thesis
    proof (cases "process_batch rq b st")
      case (Inl e)
      with True show ?thesis unfolding L R by (simp add: process_batch_finish)
    next
      case (Inr st')
      from "1.IH"[OF True Inr] True Inr show ?thesis
        unfolding L R by (simp add: process_batch_finish)
    qed
  qed
qed

lemma event_stream_finish: "event_stream (rq\<lparr>finish := f\<rparr>) = event_stream rq"
  by (simp add: event_stream_def batch_loop_finish split: sum.splits)

lemma result_candidates_filter:
  "result_candidates evs = result_candidates (filter is_result evs)"
  by (induction evs rule: result_candidates.induct) simp_all

lemma result_candidates_events:
  "result_candidates (map (result_event rq) xs) = map (\<lambda>i. JStr (fst (candidates rq ! i))) xs"
  by (induction xs) (simp_all add: result_event_def)

lemma result_candidates_append_done:
  "result_candidates (evs @ [Done t rs]) = result_candidates evs"
  by (induction evs rule: result_candidates.induct) simp_all

lemma final_candidate_name:
  "dict_get (final_result rq i) ''Candidate Name'' = Some (JStr (fst (candidates rq ! i)))"
  by (cases "candidates rq ! i")
     (simp add: final_result_def finalize_candidate_name worker_result_def
        worker_candidate_name)

text \<open>
  Claim C8, as amended. For every request, the order in which the workers of a batch
  complete has no effect on the stream: the \<^verbatim>\<open>result\<close> notifications are emitted in the
  input order of the candidates, batch after batch, and the final aggregate of the
  \<^verbatim>\<open>done\<close> event lists the records in input order as well.
\<close>

theorem results_in_input_order:
  "total rq = length (candidates rq) \<longrightarrow>
     event_stream (rq\<lparr>finish := f\<rparr>) = event_stream rq
     \<and> (\<exists>evs. event_stream rq
              = Inr (evs @ [Done (total rq) (map (final_result rq) [0..<total rq])])
          \<and> filter is_result evs = map (result_event rq) [0..<total rq]
          \<and> result_candidates (evs @ [Done (total rq) (map (final_result rq) [0..<total rq])])
              = map (\<lambda>c. JStr (fst c)) (candidates rq)
          \<and> map (\<lambda>d. dict_get d ''Candidate Name'') (map (final_result rq) [0..<total rq])
              = map (\<lambda>c. Some (JStr (fst c))) (candidates rq))"
proof
  assume tot: "total rq = length (candidates rq)"
  from event_stream_shape[OF tot] obtain evs where
    S: "event_stream rq = Inr (evs @ [Done (total rq) (map (final_result rq) [0..<total rq])])"
    and R: "filter is_result evs = map (result_event rq) [0..<total rq]"
    by blast
  have nth: "map (\<lambda>i. g (candidates rq ! i)) [0..<total rq] = map g (candidates rq)" for g :: "candidate \<Rightarrow> 'b"
    unfolding tot by (simp add: map_nth flip: map_map[unfolded o_def])
  have names: "result_candidates (evs @ [Done (total rq) (map (final_result rq) [0..<total rq])])
                 = map (\<lambda>c. JStr (fst c)) (candidates rq)"
    using result_candidates_filter[of evs] R nth[of "\<lambda>c. JStr (fst c)"]
    by (simp add: result_candidates_append_done result_candidates_events)
  have dn: "map (\<lambda>d. dict_get d ''Candidate Name'') (map (final_result rq) [0..<total rq])
              = map (\<lambda>c. Some (JStr (fst c))) (candidates rq)"
    using nth[of "\<lambda>c. Some (JStr (fst c))"] by (simp add: final_candidate_name o_def)
  from S R names dn show "event_stream (rq\<lparr>finish := f\<rparr>) = event_stream rq
     \<and> (\<exists>evs. event_stream rq
              = Inr (evs @ [Done (total rq) (map (final_result rq) [0..<total rq])])
          \<and> filter is_result evs = map (result_event rq) [0..<total rq]
          \<and> result_candidates (evs @ [Done (total rq) (map (final_result rq) [0..<total rq])])
              = map (\<lambda>c. JStr (fst c)) (candidates rq)
          \<and> map (\<lambda>d. dict_get d ''Candidate Name'') (map (final_result rq) [0..<total rq])
              = map (\<lambda>c. Some (JStr (fst c))) (candidates rq))"
    by (auto simp: event_stream_finish)
qed


text \<open>
  The theorem at two candidates whose workers complete in the reverse order.
\<close>

theorem results_in_input_order_witness:
  "event_stream
       \<lparr>rt = \<lparr>tfidf_cosine = (\<lambda>_ _. Some 0), repr = (\<lambda>_. []), builtin_text = (\<lambda>_. [])\<rparr>,
        envs = (\<lambda>_. \<lparr>download_resume = (\<lambda>_. Inr (Some ''f.pdf'')),
                     extract_text = (\<lambda>_. Inr ''Python''),
                     provider_calls = (\<lambda>_. \<lparr>openai = (\<lambda>_. Raises []),
                                              gemini = (\<lambda>_. Raises [])\<rparr>)\<rparr>),
        finish = (\<lambda>i. i),
        candidates = [(''A'', ''uA'', []), (''B'', ''uB'', [])],
        total = 2, jd_texts = [''python''],
        final_openai_key = [], final_gemini_key = []\<rparr>
     = event_stream
       \<lparr>rt = \<lparr>tfidf_cosine = (\<lambda>_ _. Some 0), repr = (\<lambda>_. []), builtin_text = (\<lambda>_. [])\<rparr>,
        envs = (\<lambda>_. \<lparr>download_resume = (\<lambda>_. Inr (Some ''f.pdf'')),
                     extract_text = (\<lambda>_. Inr ''Python''),
                     provider_calls = (\<lambda>_. \<lparr>openai = (\<lambda>_. Raises []),
                                              gemini = (\<lambda>_. Raises [])\<rparr>)\<rparr>),
        finish = (\<lambda>i. 2 - i),
        candidates = [(''A'', ''uA'', []), (''B'', ''uB'', [])],
        total = 2, jd_texts = [''python''],
        final_openai_key = [], final_gemini_key = []\<rparr>
   \<and> (case event_stream
          \<lparr>rt = \<lparr>tfidf_cosine = (\<lambda>_ _. Some 0), repr = (\<lambda>_. []), builtin_text = (\<lambda>_. [])\<rparr>,
           envs = (\<lambda>_. \<lparr>download_resume = (\<lambda>_. Inr (Some ''f.pdf'')),
                        extract_text = (\<lambda>_. Inr ''Python''),
                        provider_calls = (\<lambda>_. \<lparr>openai = (\<lambda>_. Raises []),
                                                 gemini = (\<lambda>_. Raises [])\<rparr>)\<rparr>),
           finish = (\<lambda>i. 2 - i),
           candidates = [(''A'', ''uA'', []), (''B'', ''uB'', [])],
           total = 2, jd_texts = [''python''],
           final_openai_key = [], final_gemini_key = []\<rparr> of
      Inl e \<Rightarrow> None
    | Inr evs \<Rightarrow> Some (result_candidates evs))
     = Some [JStr ''A'', JStr ''B'']"
proof -
  let ?rq = "\<lparr>rt = \<lparr>tfidf_cosine = (\<lambda>_ _. Some (0::rat)), repr = (\<lambda>_. []),
                    builtin_text = (\<lambda>_. [])\<rparr>,
        envs = (\<lambda>_. \<lparr>download_resume = (\<lambda>_. Inr (Some ''f.pdf'')),
                     extract_text = (\<lambda>_. Inr ''Python''),
                     provider_calls = (\<lambda>_. \<lparr>openai = (\<lambda>_. Raises []),
                                              gemini = (\<lambda>_. Raises [])\<rparr>)\<rparr>),
        finish = (\<lambda>i. 2 - i),
        candidates = [(''A'', ''uA'', []), (''B'', ''uB'', [])],
        total = 2, jd_texts = [''python''],
        final_openai_key = [], final_gemini_key = []\<rparr>"
  have h: "total ?rq = length (candidates ?rq)" by simp
  note T = results_in_input_order[of ?rq "\<lambda>i. i"]
  from T h have a: "event_stream (?rq\<lparr>finish := (\<lambda>i. i)\<rparr>) = event_stream ?rq" by blast
  from T h obtain evs where
    "event_stream ?rq = Inr (evs @ [Done (total ?rq) (map (final_result ?rq) [0..<total ?rq])])"
    "result_candidates (evs @ [Done (total ?rq) (map (final_result ?rq) [0..<total ?rq])])
       = map (\<lambda>c. JStr (fst c)) (candidates ?rq)"
    by blast
  then have b: "(case event_stream ?rq of Inl e \<Rightarrow> None | Inr evs \<Rightarrow> Some (result_candidates evs))
     = Some [JStr ''A'', JStr ''B'']"
    by simp
  from a b show ?thesis by simp
qed

text \<open>
  The claim as stated fails: with two candidates \<open>A\<close> and \<open>B\<close> whose workers complete
  in the order \<open>B\<close>, \<open>A\<close>, the \<^verbatim>\<open>result\<close> notifications and the final aggregate name
  \<open>A\<close> before \<open>B\<close>, the input order and not the completion order.
\<close>

theorem completion_order_counterexample:
  "spec_completion_candidates
       \<lparr>rt = \<lparr>tfidf_cosine = (\<lambda>_ _. Some 0), repr = (\<lambda>_. []), builtin_text = (\<lambda>_. [])\<rparr>,
        envs = (\<lambda>_. \<lparr>download_resume = (\<lambda>_. Inr (Some ''f.pdf'')),
                     extract_text = (\<lambda>_. Inr ''Python''),
                     provider_calls = (\<lambda>_. \<lparr>openai = (\<lambda>_. Raises []),
                                              gemini = (\<lambda>_. Raises [])\<rparr>)\<rparr>),
        finish = (\<lambda>i. 2 - i),
        candidates = [(''A'', ''uA'', []), (''B'', ''uB'', [])],
        total = 2, jd_texts = [''python''],
        final_openai_key = [], final_gemini_key = []\<rparr>
     = [JStr ''B'', JStr ''A'']
   \<and> (case event_stream
          \<lparr>rt = \<lparr>tfidf_cosine = (\<lambda>_ _. Some 0), repr = (\<lambda>_. []), builtin_text = (\<lambda>_. [])\<rparr>,
           envs = (\<lambda>_. \<lparr>download_resume = (\<lambda>_. Inr (Some ''f.pdf'')),
                        extract_text = (\<lambda>_. Inr ''Python''),
                        provider_calls = (\<lambda>_. \<lparr>openai = (\<lambda>_. Raises []),
                                                 gemini = (\<lambda>_. Raises [])\<rparr>)\<rparr>),
           finish = (\<lambda>i. 2 - i),
           candidates = [(''A'', ''uA'', []), (''B'', ''uB'', [])],
           total = 2, jd_texts = [''python''],
           final_openai_key = [], final_gemini_key = []\<rparr> of
      Inl e \<Rightarrow> None
    | Inr evs \<Rightarrow> Some (result_candidates evs, done_candidates evs))
     = Some ([JStr ''A'', JStr ''B''], [Some (JStr ''A''), Some (JStr ''B'')])"
  by code_simp

lemma final_result_get:
  "k \<noteq> ''Photo Link'' \<Longrightarrow> k \<noteq> ''_ok'' \<Longrightarrow>
     dict_get (snd (finalize_result photo result)) k = dict_get result k"
  by (simp add: finalize_result_def Let_def dict_get_dict_set dict_get_pop)

text \<open>
  Claim C9. For every candidate, a failure of the worker (the download raises or gives
  no file, the extraction raises or gives no text, the scoring raises) is caught and
  turned into a record with ATS Score 0, Status \<open>Failed\<close>, the sentinel \<open>Error\<close> in the
  detail fields, the failure message in the summary and a false success flag. For every
  request the stream ends normally with a \<^verbatim>\<open>done\<close> event that holds exactly one record
  for each input candidate: for a candidate whose worker failed, a record with Status
  \<open>Failed\<close> and ATS Score 0, and for any other, a record whose Status is \<open>GPT\<close>,
  \<open>Gemini\<close> or \<open>Keyword\<close>.
\<close>

theorem failure_isolation:
  "(download_resume env url = Inl e \<longrightarrow>
      process_body run env name url jds oai_key gem_key = Inl e)
   \<and> (download_resume env url = Inr None \<or> download_resume env url = Inr (Some []) \<longrightarrow>
      process_body run env name url jds oai_key gem_key
        = Inl (Exception ''Failed to download resume file.''))
   \<and> (download_resume env url = Inr (Some fp) \<and> fp \<noteq> [] \<and> extract_text env fp = Inl e \<longrightarrow>
      process_body run env name url jds oai_key gem_key = Inl e)
   \<and> (download_resume env url = Inr (Some fp) \<and> fp \<noteq> [] \<and> extract_text env fp = Inr [] \<longrightarrow>
      process_body run env name url jds oai_key gem_key
        = Inl (Exception ''No text could be extracted (possibly a scanned image).''))
   \<and> (download_resume env url = Inr (Some fp) \<and> fp \<noteq> [] \<and> extract_text env fp = Inr txt
        \<and> txt \<noteq> []
        \<and> score_against_all_jds run (provider_calls env) txt jds oai_key gem_key = Inl e \<longrightarrow>
      process_body run env name url jds oai_key gem_key = Inl e)
   \<and> (process_body run env name url jds oai_key gem_key = Inl e \<longrightarrow>
      process_one_candidate run env name url jds oai_key gem_key
        = [(''Candidate Name'', JStr name),
           (''Resume Link'', JStr url),
           (''ATS Score'', JNum 0),
           (''Status'', JStr ''Failed''),
           (''Phone Number'', JStr ''Error''),
           (''Email'', JStr ''Error''),
           (''Photo Link'', JStr ''Error''),
           (''Resume Summary'', JStr (''Failed: '' @ str_exc run e)),
           (''Missing Requirements'', JStr ''Error''),
           (''Job Description Summary'', JStr ''Error''),
           (''Target Job Role'', JStr ''Error''),
           (''Best Fit Role'', JStr ''Error''),
           (''Matched JD'', JStr ''Error''),
           (''Recommendation'', JStr ''No''),
           (''_ok'', JBool False)])
   \<and> (total rq = length (candidates rq) \<longrightarrow>
      (\<exists>evs. event_stream rq
                = Inr (evs @ [Done (total rq) (map (final_result rq) [0..<total rq])]))
      \<and> length (map (final_result rq) [0..<total rq]) = length (candidates rq)
      \<and> (\<forall>i<length (candidates rq).
            ((\<exists>e. worker_outcome rq i = Inl e) \<longrightarrow>
               dict_get (final_result rq i) ''Status'' = Some (JStr ''Failed'')
               \<and> dict_get (final_result rq i) ''ATS Score'' = Some (JNum 0))
            \<and> ((\<exists>d. worker_outcome rq i = Inr d) \<longrightarrow>
               dict_get (final_result rq i) ''Status''
                 \<in> {Some (JStr ''GPT''), Some (JStr ''Gemini''), Some (JStr ''Keyword'')})))"
proof -
  let ?B = "process_body run env name url jds oai_key gem_key"
  have a: "download_resume env url = Inl e \<longrightarrow> ?B = Inl e"
    by (simp add: process_body_def)
  have b: "download_resume env url = Inr None \<or> download_resume env url = Inr (Some []) \<longrightarrow>
      ?B = Inl (Exception ''Failed to download resume file.'')"
    by (auto simp: process_body_def)
  have c: "download_resume env url = Inr (Some fp) \<and> fp \<noteq> [] \<and> extract_text env fp = Inl e \<longrightarrow>
      ?B = Inl e"
    by (cases fp) (auto simp: process_body_def)
  have d: "download_resume env url = Inr (Some fp) \<and> fp \<noteq> [] \<and> extract_text env fp = Inr [] \<longrightarrow>
      ?B = Inl (Exception ''No text could be extracted (possibly a scanned image).'')"
    by (cases fp) (auto simp: process_body_def)
  have f: "download_resume env url = Inr (Some fp) \<and> fp \<noteq> [] \<and> extract_text env fp = Inr txt
        \<and> txt \<noteq> []
        \<and> score_against_all_jds run (provider_calls env) txt jds oai_key gem_key = Inl e \<longrightarrow>
      ?B = Inl e"
    by (cases fp) (auto simp: process_body_def)
  have g: "?B = Inl e \<longrightarrow>
      process_one_candidate run env name url jds oai_key gem_key
        = [(''Candidate Name'', JStr name),
           (''Resume Link'', JStr url),
           (''ATS Score'', JNum 0),
           (''Status'', JStr ''Failed''),
           (''Phone Number'', JStr ''Error''),
           (''Email'', JStr ''Error''),
           (''Photo Link'', JStr ''Error''),
           (''Resume Summary'', JStr (''Failed: '' @ str_exc run e)),
           (''Missing Requirements'', JStr ''Error''),
           (''Job Description Summary'', JStr ''Error''),
           (''Target Job Role'', JStr ''Error''),
           (''Best Fit Role'', JStr ''Error''),
           (''Matched JD'', JStr ''Error''),
           (''Recommendation'', JStr ''No''),
           (''_ok'', JBool False)]"
    by (simp add: process_one_candidate_def failed_record_eq)
  have h: "(\<exists>evs. event_stream rq
                = Inr (evs @ [Done (total rq) (map (final_result rq) [0..<total rq])]))
      \<and> length (map (final_result rq) [0..<total rq]) = length (candidates rq)
      \<and> (\<forall>i<length (candidates rq).
            ((\<exists>e. worker_outcome rq i = Inl e) \<longrightarrow>
               dict_get (final_result rq i) ''Status'' = Some (JStr ''Failed'')
               \<and> dict_get (final_result rq i) ''ATS Score'' = Some (JNum 0))
            \<and> ((\<exists>d. worker_outcome rq i = Inr d) \<longrightarrow>
               dict_get (final_result rq i) ''Status''
                 \<in> {Some (JStr ''GPT''), Some (JStr ''Gemini''), Some (JStr ''Keyword'')}))"
    if tot: "total rq = length (candidates rq)"
  proof -
    from event_stream_shape[OF tot] have ex: "\<exists>evs. event_stream rq
                = Inr (evs @ [Done (total rq) (map (final_result rq) [0..<total rq])])"
      by blast
    have len: "length (map (final_result rq) [0..<total rq]) = length (candidates rq)"
      using tot by simp
    have per: "((\<exists>e. worker_outcome rq i = Inl e) \<longrightarrow>
               dict_get (final_result rq i) ''Status'' = Some (JStr ''Failed'')
               \<and> dict_get (final_result rq i) ''ATS Score'' = Some (JNum 0))
            \<and> ((\<exists>d. worker_outcome rq i = Inr d) \<longrightarrow>
               dict_get (final_result rq i) ''Status''
                 \<in> {Some (JStr ''GPT''), Some (JStr ''Gemini''), Some (JStr ''Keyword'')})"
      for i
    proof -
      obtain nm u ph where cnd: "candidates rq ! i = (nm, u, ph)"
        by (cases "candidates rq ! i") auto
      let ?W = "process_body (rt rq) (envs rq i) nm u (jd_texts rq)
                  (final_openai_key rq) (final_gemini_key rq)"
      have wo: "worker_outcome rq i = ?W" by (simp add: worker_outcome_def cnd)
      have wr: "worker_result rq i = (case ?W of Inr r \<Rightarrow> r
                  | Inl e \<Rightarrow> failed_record (rt rq) nm u e)"
        by (simp add: worker_result_def cnd process_one_candidate_def)
      have st: "dict_get (final_result rq i) ''Status'' = dict_get (worker_result rq i) ''Status''"
        and ats: "dict_get (final_result rq i) ''ATS Score''
                    = dict_get (worker_result rq i) ''ATS Score''"
        by (simp_all add: final_result_def final_result_get)
      have fl: "dict_get (final_result rq i) ''Status'' = Some (JStr ''Failed'')
               \<and> dict_get (final_result rq i) ''ATS Score'' = Some (JNum 0)"
        if "worker_outcome rq i = Inl e" for e
        using that unfolding st ats wr wo by (simp add: failed_record_eq dict_get_def)
      have ok: "dict_get (final_result rq i) ''Status''
                 \<in> {Some (JStr ''GPT''), Some (JStr ''Gemini''), Some (JStr ''Keyword'')}"
        if "worker_outcome rq i = Inr d" for d
      proof -
        from that wo have W: "?W = Inr d" by simp
        from process_body_fields[OF W] obtain sd where
          d: "d = [(''Candidate Name'', JStr nm), (''Resume Link'', JStr u)]
                  @ sd @ [(''_ok'', JBool True)]"
          and s: "dict_get sd ''Status''
                \<in> {Some (JStr ''GPT''), Some (JStr ''Gemini''), Some (JStr ''Keyword'')}"
          by blast
        have "dict_get d ''Status'' = dict_get sd ''Status''"
          using s unfolding d by (auto simp: dict_get_def map_add_def split: option.splits)
        with s show ?thesis unfolding st wr W by simp
      qed
      from fl ok show ?thesis by blast
    qed
    from ex len per show ?thesis by blast
  qed
  from a b c d f g h show ?thesis by blast
qed


text \<open>
  The theorem at five candidates of which the third cannot be downloaded, with no
  provider configured; and at single workers that fail in each of the other ways.
\<close>

theorem failure_isolation_witness:
  "worker_outcome
       \<lparr>rt = \<lparr>tfidf_cosine = (\<lambda>_ _. Some 0), repr = (\<lambda>_. []), builtin_text = (\<lambda>_. [])\<rparr>,
        envs = (\<lambda>i. \<lparr>download_resume = (\<lambda>_. if i = 2 then Inr None else Inr (Some ''f.pdf'')),
                     extract_text = (\<lambda>_. Inr ''Python''),
                     provider_calls = (\<lambda>_. \<lparr>openai = (\<lambda>_. Raises []),
                                              gemini = (\<lambda>_. Raises [])\<rparr>)\<rparr>),
        finish = (\<lambda>i. 5 - i),
        candidates = [(''C1'', ''u1'', []), (''C2'', ''u2'', []), (''C3'', ''u3'', []),
                      (''C4'', ''u4'', []), (''C5'', ''u5'', [])],
        total = 5, jd_texts = [''python''],
        final_openai_key = [], final_gemini_key = []\<rparr> 2
     = Inl (Exception ''Failed to download resume file.'')
   \<and> (\<exists>evs rs. event_stream
       \<lparr>rt = \<lparr>tfidf_cosine = (\<lambda>_ _. Some 0), repr = (\<lambda>_. []), builtin_text = (\<lambda>_. [])\<rparr>,
        envs = (\<lambda>i. \<lparr>download_resume = (\<lambda>_. if i = 2 then Inr None else Inr (Some ''f.pdf'')),
                     extract_text = (\<lambda>_. Inr ''Python''),
                     provider_calls = (\<lambda>_. \<lparr>openai = (\<lambda>_. Raises []),
                                              gemini = (\<lambda>_. Raises [])\<rparr>)\<rparr>),
        finish = (\<lambda>i. 5 - i),
        candidates = [(''C1'', ''u1'', []), (''C2'', ''u2'', []), (''C3'', ''u3'', []),
                      (''C4'', ''u4'', []), (''C5'', ''u5'', [])],
        total = 5, jd_texts = [''python''],
        final_openai_key = [], final_gemini_key = []\<rparr> = Inr (evs @ [Done 5 rs])
       \<and> length rs = 5
       \<and> map (\<lambda>d. dict_get d ''Status'') rs
           = [Some (JStr ''Keyword''), Some (JStr ''Keyword''), Some (JStr ''Failed''),
              Some (JStr ''Keyword''), Some (JStr ''Keyword'')]
       \<and> dict_get (rs ! 2) ''ATS Score'' = Some (JNum 0))
   \<and> dict_get (process_one_candidate
         \<lparr>tfidf_cosine = (\<lambda>_ _. Some 0), repr = (\<lambda>_. []), builtin_text = (\<lambda>_. [])\<rparr>
         \<lparr>download_resume = (\<lambda>_. Inl (Exception ''disk full'')),
          extract_text = (\<lambda>_. Inr ''Python''),
          provider_calls = (\<lambda>_. \<lparr>openai = (\<lambda>_. Raises []), gemini = (\<lambda>_. Raises [])\<rparr>)\<rparr>
         ''C'' ''u'' [''python''] [] []) ''Resume Summary''
       = Some (JStr ''Failed: disk full'')
   \<and> process_body
         \<lparr>tfidf_cosine = (\<lambda>_ _. Some 0), repr = (\<lambda>_. []), builtin_text = (\<lambda>_. [])\<rparr>
         \<lparr>download_resume = (\<lambda>_. Inr (Some ''f.pdf'')),
          extract_text = (\<lambda>_. Inl (Exception ''unreadable'')),
          provider_calls = (\<lambda>_. \<lparr>openai = (\<lambda>_. Raises []), gemini = (\<lambda>_. Raises [])\<rparr>)\<rparr>
         ''C'' ''u'' [''python''] [] [] = Inl (Exception ''unreadable'')
   \<and> process_body
         \<lparr>tfidf_cosine = (\<lambda>_ _. Some 0), repr = (\<lambda>_. []), builtin_text = (\<lambda>_. [])\<rparr>
         \<lparr>download_resume = (\<lambda>_. Inr (Some ''f.pdf'')),
          extract_text = (\<lambda>_. Inr []),
          provider_calls = (\<lambda>_. \<lparr>openai = (\<lambda>_. Raises []), gemini = (\<lambda>_. Raises [])\<rparr>)\<rparr>
         ''C'' ''u'' [''python''] [] []
       = Inl (Exception ''No text could be extracted (possibly a scanned image).'')
   \<and> process_body
         \<lparr>tfidf_cosine = (\<lambda>_ _. Some 0), repr = (\<lambda>_. []), builtin_text = (\<lambda>_. [])\<rparr>
         \<lparr>download_resume = (\<lambda>_. Inr (Some ''f.pdf'')),
          extract_text = (\<lambda>_. Inr ''Python''),
          provider_calls = (\<lambda>_. \<lparr>openai = (\<lambda>_. Replies [(''overall_score'', JStr ''high'')]),
                                   gemini = (\<lambda>_. Raises [])\<rparr>)\<rparr>
         ''C'' ''u'' [''python''] ''sk'' [] = Inl TypeError"
proof -
  let ?run = "\<lparr>tfidf_cosine = (\<lambda>_ _. Some (0::rat)), repr = (\<lambda>_. []), builtin_text = (\<lambda>_. [])\<rparr>"
  let ?none = "\<lambda>_::nat. \<lparr>openai = (\<lambda>_. Raises []), gemini = (\<lambda>_. Raises [])\<rparr>"
  let ?rq = "\<lparr>rt = ?run,
        envs = (\<lambda>i. \<lparr>download_resume = (\<lambda>_. if i = 2 then Inr None else Inr (Some ''f.pdf'')),
                     extract_text = (\<lambda>_. Inr ''Python''),
                     provider_calls = ?none\<rparr>),
        finish = (\<lambda>i. 5 - i),
        candidates = [(''C1'', ''u1'', []), (''C2'', ''u2'', []), (''C3'', ''u3'', []),
                      (''C4'', ''u4'', []), (''C5'', ''u5'', [])],
        total = 5, jd_texts = [''python''],
        final_openai_key = [], final_gemini_key = []\<rparr>"
  let ?e2 = "\<lparr>download_resume = (\<lambda>_. Inr None :: error + string option),
              extract_text = (\<lambda>_. Inr ''Python''), provider_calls = ?none\<rparr>"
  have tot: "total ?rq = length (candidates ?rq)" by simp
  note T = failure_isolation[of ?e2 "''u3''" _ ?run "''C3''" "[''python'']" "[]" "[]" _ _ ?rq]
  from T have w2b: "process_body ?run ?e2 ''C3'' ''u3'' [''python''] [] []
                      = Inl (Exception ''Failed to download resume file.'')"
    by simp
  have w2: "worker_outcome ?rq 2 = Inl (Exception ''Failed to download resume file.'')"
    using w2b by (simp add: worker_outcome_def)
  from T tot obtain evs where
    ev: "event_stream ?rq = Inr (evs @ [Done (total ?rq) (map (final_result ?rq) [0..<total ?rq])])"
    by blast
  from T tot have per: "\<forall>i<length (candidates ?rq).
            ((\<exists>e. worker_outcome ?rq i = Inl e) \<longrightarrow>
               dict_get (final_result ?rq i) ''Status'' = Some (JStr ''Failed'')
               \<and> dict_get (final_result ?rq i) ''ATS Score'' = Some (JNum 0))"
    by blast
  from per[rule_format, of 2] w2
  have f2: "dict_get (final_result ?rq 2) ''Status'' = Some (JStr ''Failed'')"
    "dict_get (final_result ?rq 2) ''ATS Score'' = Some (JNum 0)"
    by simp_all
  have others: "dict_get (final_result ?rq 0) ''Status'' = Some (JStr ''Keyword'')"
    "dict_get (final_result ?rq 1) ''Status'' = Some (JStr ''Keyword'')"
    "dict_get (final_result ?rq 3) ''Status'' = Some (JStr ''Keyword'')"
    "dict_get (final_result ?rq 4) ''Status'' = Some (JStr ''Keyword'')"
    by code_simp+
  have up: "[0..<5] = [0, 1, 2, 3, 4]" by code_simp
  have five: "\<exists>evs rs. event_stream ?rq = Inr (evs @ [Done 5 rs]) \<and> length rs = 5
       \<and> map (\<lambda>d. dict_get d ''Status'') rs
           = [Some (JStr ''Keyword''), Some (JStr ''Keyword''), Some (JStr ''Failed''),
              Some (JStr ''Keyword''), Some (JStr ''Keyword'')]
       \<and> dict_get (rs ! 2) ''ATS Score'' = Some (JNum 0)"
    using ev f2 others
    by (intro exI[of _ evs] exI[of _ "map (final_result ?rq) [0..<5]"]) (simp add: up)
  let ?ea = "\<lparr>download_resume = (\<lambda>_. Inl (Exception ''disk full'') :: error + string option),
          extract_text = (\<lambda>_. Inr ''Python''), provider_calls = ?none\<rparr>"
  note A = failure_isolation[of ?ea "''u''" "Exception ''disk full''" ?run "''C''" "[''python'']"
             "[]" "[]"]
  from A have a: "dict_get (process_one_candidate ?run ?ea ''C'' ''u'' [''python''] [] [])
                    ''Resume Summary'' = Some (JStr ''Failed: disk full'')"
    by (simp add: dict_get_def str_exc_def)
  let ?ec = "\<lparr>download_resume = (\<lambda>_. Inr (Some ''f.pdf'') :: error + string option),
          extract_text = (\<lambda>_. Inl (Exception ''unreadable'')), provider_calls = ?none\<rparr>"
  note C = failure_isolation[of ?ec "''u''" "Exception ''unreadable''" ?run "''C''" "[''python'']"
             "[]" "[]" "''f.pdf''"]
  from C have c: "process_body ?run ?ec ''C'' ''u'' [''python''] [] []
                    = Inl (Exception ''unreadable'')"
    by simp
  let ?ed = "\<lparr>download_resume = (\<lambda>_. Inr (Some ''f.pdf'') :: error + string option),
          extract_text = (\<lambda>_. Inr []), provider_calls = ?none\<rparr>"
  note D = failure_isolation[of ?ed "''u''" _ ?run "''C''" "[''python'']" "[]" "[]" "''f.pdf''"]
  from D have d: "process_body ?run ?ed ''C'' ''u'' [''python''] [] []
                    = Inl (Exception ''No text could be extracted (possibly a scanned image).'')"
    by simp
  let ?bad = "\<lambda>_::nat. \<lparr>openai = (\<lambda>_. Replies [(''overall_score'', JStr ''high'')]),
                          gemini = (\<lambda>_. Raises [])\<rparr>"
  let ?ef = "\<lparr>download_resume = (\<lambda>_. Inr (Some ''f.pdf'') :: error + string option),
          extract_text = (\<lambda>_. Inr ''Python''), provider_calls = ?bad\<rparr>"
  have sc: "score_against_all_jds ?run ?bad ''Python'' [''python''] ''sk'' [] = Inl TypeError"
    by code_simp
  note F = failure_isolation[of ?ef "''u''" TypeError ?run "''C''" "[''python'']" "''sk''" "[]"
             "''f.pdf''" "''Python''"]
  from F sc have f: "process_body ?run ?ef ''C'' ''u'' [''python''] ''sk'' [] = Inl TypeError"
    by simp
  from w2 five a c d f show ?thesis by blast
qed





end
